theory Spec2Isabelle
  imports Main "HOL-Library.AList"
begin

section \<open>h5ncml: HDF5 metadata to NcML\<close>

text \<open>
  A shallow embedding of \<^verbatim>\<open>src/h5ncml/h5ncml.py\<close>. Python exceptions are values of the
  type \<open>error\<close>; a function that can raise returns \<open>error + 'a\<close> with \<open>Inl\<close> the
  exception. The module-level dictionary \<^verbatim>\<open>grp_node\<close>, the lxml elements it refers to
  and the open file handles form an explicit program state that is passed through and
  returned.
\<close>

subsection \<open>Exceptions\<close>

text \<open>
  The built-in exception classes the module raises or lets escape, each with its
  message. A \<open>KeyError\<close> carries the printed form of the missing key.
\<close>

datatype error =
    TypeError string
  | NotImplementedError string
  | ValueError string
  | RuntimeError string
  | KeyError string
  | IndexError string
  | AttributeError string
  | OSError string

subsection \<open>Python's \<^verbatim>\<open>str\<close> on integers and \<^verbatim>\<open>' '.join\<close>\<close>

definition digit :: "nat \<Rightarrow> char" where
  "digit d = ''0123456789'' ! d"

function str_nat :: "nat \<Rightarrow> string" where
  "str_nat n = (if n < 10 then [digit n] else str_nat (n div 10) @ [digit (n mod 10)])"
  by pat_completeness auto
termination
  by (relation "measure id") auto

definition str_int :: "int \<Rightarrow> string" where
  "str_int i = (if i < 0 then CHR ''-'' # str_nat (nat (- i)) else str_nat (nat i))"

fun join :: "string \<Rightarrow> string list \<Rightarrow> string" where
  "join sep [] = []"
| "join sep [x] = x"
| "join sep (x # y # ys) = x @ sep @ join sep (y # ys)"

text \<open>A list comprehension whose body can raise stops at the first exception.\<close>

fun map_result :: "('a \<Rightarrow> error + 'b) \<Rightarrow> 'a list \<Rightarrow> error + 'b list" where
  "map_result g [] = Inr []"
| "map_result g (x # xs) =
     (case g x of
        Inl e \<Rightarrow> Inl e
      | Inr y \<Rightarrow> (case map_result g xs of Inl e \<Rightarrow> Inl e | Inr ys \<Rightarrow> Inr (y # ys)))"

subsection \<open>HDF5 datatype descriptors\<close>

text \<open>
  What \<^verbatim>\<open>ncml_dtype\<close> reads of an \<^verbatim>\<open>h5py.h5t.TypeID\<close>: its class, its size in bytes and
  its sign. The eleven class constants of \<^verbatim>\<open>h5py.h5t\<close> that the function names are
  constructors; \<open>OTHER c\<close> is a class code \<open>c\<close> that is none of them.
\<close>

datatype h5t_class =
    INTEGER | FLOAT | TIME | STRING | BITFIELD | OPAQUE | COMPOUND | REFERENCE
  | ENUM | VLEN | ARRAY | OTHER int

datatype h5t_sign = SGN_NONE | SGN_2

record TypeID =
  get_class :: h5t_class
  get_size :: nat
  get_sign :: h5t_sign

text \<open>The two dictionaries named \<^verbatim>\<open>size\<close>; a missing key is \<open>None\<close>.\<close>

definition integer_size :: "nat \<rightharpoonup> string" where
  "integer_size = [1 \<mapsto> ''byte'', 2 \<mapsto> ''short'', 4 \<mapsto> ''int'', 8 \<mapsto> ''long'']"

definition float_size :: "nat \<rightharpoonup> string" where
  "float_size = [4 \<mapsto> ''float'', 8 \<mapsto> ''double'']"

definition ncml_dtype :: "TypeID \<Rightarrow> error + (string \<times> bool)" where
  "ncml_dtype tobj =
     (case get_class tobj of
        INTEGER \<Rightarrow>
          (let unsigned = (get_sign tobj = SGN_NONE) in
           case integer_size (get_size tobj) of
             None \<Rightarrow> Inl (KeyError (str_nat (get_size tobj)))
           | Some ncml_type \<Rightarrow> Inr (ncml_type, unsigned))
      | FLOAT \<Rightarrow>
          (case float_size (get_size tobj) of
             None \<Rightarrow> Inl (KeyError (str_nat (get_size tobj)))
           | Some ncml_type \<Rightarrow> Inr (ncml_type, False))
      | TIME \<Rightarrow> Inl (TypeError ''H5T_TIME datatype not supported in NcML'')
      | STRING \<Rightarrow> Inr (''String'', False)
      | BITFIELD \<Rightarrow> Inl (TypeError ''H5T_BITFIELD datatype not supported in NcML'')
      | OPAQUE \<Rightarrow> Inr (''opaque'', False)
      | COMPOUND \<Rightarrow> Inr (''Structure'', False)
      | REFERENCE \<Rightarrow> Inl (TypeError ''H5T_REFERENCE datatype not supported in NcML'')
      | ENUM \<Rightarrow> Inl (NotImplementedError ''H5T_ENUM datatype in NcML not supported yet'')
      | VLEN \<Rightarrow> Inl (NotImplementedError ''H5T_VLEN datatype in NcML not supported yet'')
      | ARRAY \<Rightarrow> Inl (TypeError ''H5T_ARRAY datatype not supported in NcML'')
      | OTHER c \<Rightarrow> Inl (ValueError (str_int c @ '': Unknown type class'')))"

subsection \<open>Attribute values\<close>

text \<open>
  The Python values h5py hands out for an attribute: a byte string (\<^verbatim>\<open>bytes\<close>,
  \<^verbatim>\<open>numpy.bytes_\<close>), a text string (\<^verbatim>\<open>str\<close>), an integer, an object reference, any other
  scalar (a float, an opaque or compound value), which is identified with its printed
  form, and an array, kept as the flat sequence of its elements in the order
  \<^verbatim>\<open>numpy.ravel\<close> yields them. Decoding UTF-8 is the identity on the characters, so the
  model covers byte strings that are valid UTF-8. The comparison \<^verbatim>\<open>v == b'...'\<close> is
  equality of values; numpy's element-wise comparison of an array with a byte string is
  outside the model.
\<close>

datatype pyval =
    PyBytes string
  | PyStr string
  | PyInt int
  | PyRef nat
  | PyOther string
  | PyArray "pyval list"

record attribute =
  aname :: string
  atype :: TypeID
  ashape :: "nat list"
  aval :: pyval

text \<open>\<^verbatim>\<open>attrs.items()\<close>: the (name, value) pairs in the host's iteration order.\<close>

definition attr_items :: "attribute list \<Rightarrow> (string \<times> pyval) list" where
  "attr_items attrs = map (\<lambda>a. (aname a, aval a)) attrs"

subsection \<open>The dimension-scale classifier\<close>

text \<open>
  The loop of \<^verbatim>\<open>is_dimscale\<close> over the items, threading the two flags \<^verbatim>\<open>cond1\<close> and
  \<^verbatim>\<open>cond2\<close>; \<^verbatim>\<open>cond2\<close> starts as \<open>True\<close> in the source.
\<close>

fun is_dimscale_loop :: "(string \<times> pyval) list \<Rightarrow> bool \<times> bool \<Rightarrow> bool \<times> bool" where
  "is_dimscale_loop [] (cond1, cond2) = (cond1, cond2)"
| "is_dimscale_loop ((n, v) # rest) (cond1, cond2) =
     is_dimscale_loop rest
       (if n = ''CLASS'' \<and> v = PyBytes ''DIMENSION_SCALE'' then True else cond1,
        if n = ''REFERENCE_LIST'' then True else cond2)"

definition is_dimscale :: "attribute list \<Rightarrow> bool" where
  "is_dimscale attrs =
     (case is_dimscale_loop (attr_items attrs) (False, True) of
        (cond1, cond2) \<Rightarrow> (if cond1 \<and> cond2 then True else False))"

subsection \<open>Python operations on attribute values\<close>

text \<open>
  \<^verbatim>\<open>v.decode('utf-8')\<close> exists on byte strings only; on any other value the attribute
  lookup fails, and the \<open>AttributeError\<close> carries the name of the missing attribute.
\<close>

definition decode :: "pyval \<Rightarrow> error + string" where
  "decode v = (case v of PyBytes s \<Rightarrow> Inr s | _ \<Rightarrow> Inl (AttributeError ''decode''))"

text \<open>
  \<^verbatim>\<open>v.startswith(b'...')\<close>: a prefix test on a byte string; a text string rejects a
  byte-string argument; other values have no such method.
\<close>

definition startswith :: "pyval \<Rightarrow> string \<Rightarrow> error + bool" where
  "startswith v p =
     (case v of
        PyBytes s \<Rightarrow> Inr (take (length p) s = p)
      | PyStr s \<Rightarrow>
          Inl (TypeError ''startswith first arg must be str or a tuple of str, not bytes'')
      | _ \<Rightarrow> Inl (AttributeError ''startswith''))"

text \<open>
  \<^verbatim>\<open>str(v)\<close>. A byte string prints as its literal (escapes are not modelled), an array
  as its elements between brackets.
\<close>

fun py_str :: "pyval \<Rightarrow> string" where
  "py_str (PyBytes s) = ''b'' @ [CHR 0x27] @ s @ [CHR 0x27]"
| "py_str (PyStr s) = s"
| "py_str (PyInt i) = str_int i"
| "py_str (PyRef r) = ''<HDF5 object reference>''"
| "py_str (PyOther s) = s"
| "py_str (PyArray xs) = ''['' @ join '' '' (map py_str xs) @ '']''"

text \<open>\<^verbatim>\<open>numpy.ravel(v)\<close>: the elements of an array, or the scalar alone.\<close>

definition ravel :: "pyval \<Rightarrow> pyval list" where
  "ravel v = (case v of PyArray xs \<Rightarrow> xs | _ \<Rightarrow> [v])"

text \<open>
  \<^verbatim>\<open>v[n]\<close> for a non-negative \<open>n\<close>: an element of an array, a byte of a byte string, a
  character of a text string; other scalars cannot be indexed.
\<close>

definition getitem :: "pyval \<Rightarrow> nat \<Rightarrow> error + pyval" where
  "getitem v n =
     (case v of
        PyArray xs \<Rightarrow>
          (if n < length xs then Inr (xs ! n) else Inl (IndexError ''index out of bounds''))
      | PyBytes s \<Rightarrow>
          (if n < length s then Inr (PyInt (of_char (s ! n)))
           else Inl (IndexError ''index out of range''))
      | PyStr s \<Rightarrow>
          (if n < length s then Inr (PyStr [s ! n])
           else Inl (IndexError ''string index out of range''))
      | PyRef r \<Rightarrow> Inl (TypeError ''object is not subscriptable'')
      | _ \<Rightarrow> Inl (IndexError ''invalid index to scalar variable.''))"

text \<open>\<^verbatim>\<open>attrs.get(k, d)\<close>, \<^verbatim>\<open>k in attrs\<close> and \<^verbatim>\<open>attrs[k]\<close> read the attribute named \<open>k\<close>.\<close>

definition attrs_get :: "attribute list \<Rightarrow> string \<Rightarrow> pyval option" where
  "attrs_get attrs k = map_of (attr_items attrs) k"

definition attrs_get_default :: "attribute list \<Rightarrow> string \<Rightarrow> pyval \<Rightarrow> pyval" where
  "attrs_get_default attrs k d = (case attrs_get attrs k of None \<Rightarrow> d | Some v \<Rightarrow> v)"

text \<open>\<^verbatim>\<open>posixpath.basename\<close>: what follows the last slash.\<close>

definition basename :: "string \<Rightarrow> string" where
  "basename p = rev (takeWhile (\<lambda>c. c \<noteq> CHR ''/'') (rev p))"

subsection \<open>XML elements and the program state\<close>

text \<open>
  An lxml element is an object with a tag, an ordered attribute dictionary and a list of
  children; elements are mutated in place through the references held in \<^verbatim>\<open>grp_node\<close>.
  The state keeps every element created so far in \<open>nodes\<close>; a reference to an element is
  its index there. \<open>grp_node\<close> is the module-level dictionary, \<open>open_files\<close> the number of
  HDF5 file handles that were opened and not closed.
\<close>

record element =
  tag :: string
  attrib :: "(string \<times> string) list"
  children :: "nat list"

record pstate =
  grp_node :: "string \<rightharpoonup> nat"
  nodes :: "element list"
  open_files :: nat

text \<open>The state after the module is loaded: \<^verbatim>\<open>grp_node = dict()\<close>.\<close>

definition init_state :: pstate where
  "init_state = \<lparr>grp_node = Map.empty, nodes = [], open_files = 0\<rparr>"

definition ns_nc :: string where
  "ns_nc = ''http://www.unidata.ucar.edu/namespaces/netcdf/ncml-2.2''"

definition ns_xsi :: string where
  "ns_xsi = ''http://www.w3.org/2001/XMLSchema-instance''"

text \<open>A qualified name as lxml writes it: the namespace in braces, then the local name.\<close>

definition QName :: "string \<Rightarrow> string \<Rightarrow> string" where
  "QName ns local = ''{'' @ ns @ ''}'' @ local"

text \<open>
  The element factory \<^verbatim>\<open>E = ElementMaker(namespace=ns['nc'], nsmap=ns)\<close>: called with a
  dictionary, it makes an element of the NcML namespace with these attributes and no
  children.
\<close>

definition E :: "string \<Rightarrow> (string \<times> string) list \<Rightarrow> element" where
  "E local d = \<lparr>tag = QName ns_nc local, attrib = d, children = []\<rparr>"

definition nc_group :: "(string \<times> string) list \<Rightarrow> element" where
  "nc_group = E ''group''"

definition nc_var :: "(string \<times> string) list \<Rightarrow> element" where
  "nc_var = E ''variable''"

definition nc_attr :: "(string \<times> string) list \<Rightarrow> element" where
  "nc_attr = E ''attribute''"

definition nc_dim :: "(string \<times> string) list \<Rightarrow> element" where
  "nc_dim = E ''dimension''"

text \<open>Creating an element yields a reference to a new object.\<close>

definition alloc :: "element \<Rightarrow> pstate \<Rightarrow> nat \<times> pstate" where
  "alloc e st = (length (nodes st), st\<lparr>nodes := nodes st @ [e]\<rparr>)"

text \<open>\<^verbatim>\<open>parent.append(child)\<close> for a child that has no parent yet.\<close>

definition append_child :: "nat \<Rightarrow> nat \<Rightarrow> pstate \<Rightarrow> pstate" where
  "append_child p c st =
     st\<lparr>nodes := (nodes st)[p := (nodes st ! p)\<lparr>children := children (nodes st ! p) @ [c]\<rparr>]\<rparr>"

subsection \<open>HDF5 objects, files and the host\<close>

text \<open>
  What the walker reads of a visited object: whether it is a group, a dataset or
  anything else (a committed datatype), \<^verbatim>\<open>obj.name\<close>, \<^verbatim>\<open>obj.parent.name\<close>, \<^verbatim>\<open>obj.attrs\<close>
  in iteration order and, for a dataset, \<^verbatim>\<open>obj.id.get_type()\<close> and \<^verbatim>\<open>obj.shape\<close>.
\<close>

datatype h5kind = Group | Dataset | Other

record h5obj =
  obj_kind :: h5kind
  obj_name :: string
  obj_parent_name :: string
  obj_attrs :: "attribute list"
  obj_type :: TypeID
  obj_shape :: "nat list"

text \<open>
  An open file: the attributes of its root group, the objects \<^verbatim>\<open>visititems\<close> passes to
  the callback, in that order, and \<^verbatim>\<open>f[x].name\<close> as the host library resolves a value
  \<open>x\<close> to an object.
\<close>

record h5file =
  file_attrs :: "attribute list"
  file_items :: "h5obj list"
  getitem_name :: "pyval \<Rightarrow> error + string"

text \<open>
  The host: the files \<^verbatim>\<open>h5py.File(h5fname, 'r')\<close> can open, and the \<^verbatim>\<open>file:\<close> URL the
  standard library computes for the absolute path of a file name.
\<close>

record host =
  files :: "string \<rightharpoonup> h5file"
  file_url :: "string \<Rightarrow> string"

subsection \<open>The attribute serializer\<close>

text \<open>The text of an attribute's value, by NcML type and shape (lines 113 to 123).\<close>

definition format_aval :: "string \<Rightarrow> nat list \<Rightarrow> pyval \<Rightarrow> error + string" where
  "format_aval ty shp v =
     (if ty = ''String'' then
        (if length shp = 0 then decode v
         else (case map_result decode (ravel v) of
                 Inl e \<Rightarrow> Inl e
               | Inr ss \<Rightarrow> Inr (join '' '' ss)))
      else Inr (join '' '' (map py_str (ravel v))))"

definition internal_names :: "string list" where
  "internal_names = [''CLASS'', ''REFERENCE_LIST'', ''DIMENSION_LIST'', ''NAME'']"

text \<open>
  The body of the loop of \<^verbatim>\<open>do_attributes\<close> up to the \<^verbatim>\<open><attribute>\<close> element of one
  attribute (lines 108 to 128); the loop then appends the element to its parent.
\<close>

definition attribute_xml :: "attribute \<Rightarrow> error + element" where
  "attribute_xml a =
     (case ncml_dtype (atype a) of
        Inl e \<Rightarrow> Inl e
      | Inr (ty, is_unsign) \<Rightarrow>
          (case format_aval ty (ashape a) (aval a) of
             Inl e \<Rightarrow> Inl e
           | Inr text \<Rightarrow>
               (let axml = nc_attr [(''name'', aname a), (''type'', ty), (''value'', text)]
                in Inr (if is_unsign
                        then axml\<lparr>attrib := AList.update ''isUnsigned'' ''true'' (attrib axml)\<rparr>
                        else axml))))"

fun do_attributes :: "nat \<Rightarrow> attribute list \<Rightarrow> pstate \<Rightarrow> (error + unit) \<times> pstate" where
  "do_attributes elem [] st = (Inr (), st)"
| "do_attributes elem (a # rest) st =
     (if aname a \<in> set internal_names then do_attributes elem rest st
      else
        (case attribute_xml a of
           Inl e \<Rightarrow> (Inl e, st)
         | Inr axml \<Rightarrow>
             (let (i, st1) = alloc axml st
              in do_attributes elem rest (append_child elem i st1))))"

subsection \<open>The visitor callback\<close>

text \<open>
  The last two statements of \<^verbatim>\<open>objinfo\<close>, reached by a group and by a dataset that is
  materialized as a variable: attach the element to the node registered for the
  parent, then serialize the object's attributes.
\<close>

definition objinfo_tail :: "nat \<Rightarrow> h5obj \<Rightarrow> pstate \<Rightarrow> (error + unit) \<times> pstate" where
  "objinfo_tail elem obj st =
     (case grp_node st (obj_parent_name obj) of
        None \<Rightarrow> (Inl (KeyError (obj_parent_name obj)), st)
      | Some p \<Rightarrow> do_attributes elem (obj_attrs obj) (append_child p elem st))"

text \<open>The shape of a variable (lines 162 to 169).\<close>

definition dataset_shape :: "h5file \<Rightarrow> h5obj \<Rightarrow> error + string list" where
  "dataset_shape f obj =
     (case attrs_get (obj_attrs obj) ''DIMENSION_LIST'' of
        Some dl \<Rightarrow>
          map_result
            (\<lambda>n. case getitem dl n of
                    Inl e \<Rightarrow> Inl e
                  | Inr row \<Rightarrow>
                      (case getitem row 0 of
                         Inl e \<Rightarrow> Inl e
                       | Inr r \<Rightarrow> getitem_name f r))
            [0..<length (obj_shape obj)]
      | None \<Rightarrow> Inr (map str_nat (obj_shape obj)))"

text \<open>A dataset from its datatype on (lines 158 to 180).\<close>

definition objinfo_variable :: "h5file \<Rightarrow> h5obj \<Rightarrow> pstate \<Rightarrow> (error + unit) \<times> pstate" where
  "objinfo_variable f obj st =
     (case ncml_dtype (obj_type obj) of
        Inl e \<Rightarrow> (Inl e, st)
      | Inr (dset_type, is_unsign) \<Rightarrow>
          (case dataset_shape f obj of
             Inl e \<Rightarrow> (Inl e, st)
           | Inr shp \<Rightarrow>
               (let (elem, st1) =
                      alloc (nc_var [(''name'', basename (obj_name obj)), (''type'', dset_type),
                                     (''shape'', join '' '' shp)]) st;
                    st2 = (if is_unsign
                           then (let (u, st') =
                                       alloc (nc_attr [(''name'', ''_Unsigned''), (''value'', ''true'')]) st1
                                 in append_child elem u st')
                           else st1)
                in objinfo_tail elem obj st2)))"

definition dimension_only_marker :: string where
  "dimension_only_marker = ''This is a netCDF dimension but not a netCDF variable.''"

text \<open>
  \<^verbatim>\<open>objinfo(name, obj)\<close>; the callback does not use its first argument. The message of
  the last \<open>TypeError\<close> abbreviates the printed form of the object to its name.
\<close>

definition objinfo :: "h5file \<Rightarrow> h5obj \<Rightarrow> pstate \<Rightarrow> (error + unit) \<times> pstate" where
  "objinfo f obj st =
     (case obj_kind obj of
        Group \<Rightarrow>
          (if grp_node st (obj_name obj) \<noteq> None
           then (Inl (RuntimeError (obj_name obj @ '': XML node already exists'')), st)
           else
             (let (elem, st1) = alloc (nc_group [(''name'', basename (obj_name obj))]) st;
                  st2 = st1\<lparr>grp_node := (grp_node st1)(obj_name obj \<mapsto> elem)\<rparr>
              in objinfo_tail elem obj st2))
      | Dataset \<Rightarrow>
          (if is_dimscale (obj_attrs obj) then
             (case obj_shape obj of
                [] \<Rightarrow> (Inl (IndexError ''tuple index out of range''), st)
              | d # ds \<Rightarrow>
                  (let (elem, st1) =
                         alloc (nc_dim [(''name'', basename (obj_name obj)),
                                        (''length'', str_nat d)]) st
                   in (case grp_node st1 (obj_parent_name obj) of
                         None \<Rightarrow> (Inl (KeyError (obj_parent_name obj)), st1)
                       | Some p \<Rightarrow>
                           (let st2 = append_child p elem st1
                            in (case startswith
                                       (attrs_get_default (obj_attrs obj) ''NAME'' (PyBytes []))
                                       dimension_only_marker of
                                  Inl e \<Rightarrow> (Inl e, st2)
                                | Inr True \<Rightarrow> (Inr (), st2)
                                | Inr False \<Rightarrow> objinfo_variable f obj st2)))))
           else objinfo_variable f obj st)
      | Other \<Rightarrow> (Inl (TypeError (''Unexpected HDF5 object: '' @ obj_name obj)), st))"

text \<open>
  \<^verbatim>\<open>f.visititems(objinfo)\<close>: the callback on each object in turn; the callback returns
  nothing, so the visit ends only at the last object or at the first exception.
\<close>

fun visititems :: "h5file \<Rightarrow> h5obj list \<Rightarrow> pstate \<Rightarrow> (error + unit) \<times> pstate" where
  "visititems f [] st = (Inr (), st)"
| "visititems f (obj # rest) st =
     (case objinfo f obj st of
        (Inl e, st') \<Rightarrow> (Inl e, st')
      | (Inr u, st') \<Rightarrow> visititems f rest st')"

subsection \<open>The conversion\<close>

text \<open>
  \<^verbatim>\<open>h5toncml(h5fname)\<close> returns the document, that is, a reference to its root element.
  Opening the file raises \<open>OSError\<close> when the host cannot open it; \<^verbatim>\<open>f.close()\<close> is the
  statement before the \<^verbatim>\<open>return\<close>.
\<close>

definition h5toncml :: "host \<Rightarrow> string \<Rightarrow> pstate \<Rightarrow> (error + nat) \<times> pstate" where
  "h5toncml h h5fname st =
     (case files h h5fname of
        None \<Rightarrow> (Inl (OSError h5fname), st)
      | Some f \<Rightarrow>
          (let st0 = st\<lparr>open_files := Suc (open_files st)\<rparr>;
               (root, st1) =
                 alloc \<lparr>tag = QName ns_nc ''netcdf'',
                        attrib = [(QName ns_xsi ''schemaLocation'',
                                   ''http://www.unidata.ucar.edu/schemas/netcdf/ncml-2.2.xsd''),
                                  (''location'', file_url h h5fname)],
                        children = []\<rparr> st0;
               st2 = st1\<lparr>grp_node := (grp_node st1)(''/'' \<mapsto> root)\<rparr>
           in (case do_attributes root (file_attrs f) st2 of
                 (Inl e, st3) \<Rightarrow> (Inl e, st3)
               | (Inr u, st3) \<Rightarrow>
                   (case visititems f (file_items f) st3 of
                      (Inl e, st4) \<Rightarrow> (Inl e, st4)
                    | (Inr u', st4) \<Rightarrow> (Inr root, st4\<lparr>open_files := open_files st4 - 1\<rparr>)))))"

subsection \<open>Example files\<close>

text \<open>Concrete objects and files, used to evaluate the conversion.\<close>

definition ex_float32 :: TypeID where
  "ex_float32 = \<lparr>get_class = FLOAT, get_size = 4, get_sign = SGN_2\<rparr>"

definition ex_uint64 :: TypeID where
  "ex_uint64 = \<lparr>get_class = INTEGER, get_size = 8, get_sign = SGN_NONE\<rparr>"

definition ex_string :: TypeID where
  "ex_string = \<lparr>get_class = STRING, get_size = 64, get_sign = SGN_2\<rparr>"

definition ex_time :: TypeID where
  "ex_time = \<lparr>get_class = TIME, get_size = 4, get_sign = SGN_2\<rparr>"

definition ex_attr :: "string \<Rightarrow> pyval \<Rightarrow> attribute" where
  "ex_attr n v = \<lparr>aname = n, atype = ex_string, ashape = [], aval = v\<rparr>"

definition ex_lat :: h5obj where
  "ex_lat = \<lparr>obj_kind = Dataset, obj_name = ''/lat'', obj_parent_name = ''/'',
     obj_attrs = [ex_attr ''CLASS'' (PyBytes ''DIMENSION_SCALE''),
                  ex_attr ''NAME''
                    (PyBytes ''This is a netCDF dimension but not a netCDF variable.         5''),
                  ex_attr ''REFERENCE_LIST'' (PyArray [])],
     obj_type = ex_float32, obj_shape = [5]\<rparr>"

definition ex_grp :: h5obj where
  "ex_grp = \<lparr>obj_kind = Group, obj_name = ''/g'', obj_parent_name = ''/'',
     obj_attrs = [ex_attr ''title'' (PyBytes ''counts'')],
     obj_type = ex_float32, obj_shape = []\<rparr>"

definition ex_cnt :: h5obj where
  "ex_cnt = \<lparr>obj_kind = Dataset, obj_name = ''/g/cnt'', obj_parent_name = ''/g'',
     obj_attrs = [ex_attr ''NAME'' (PyBytes ''cnt''), ex_attr ''units'' (PyBytes ''meters'')],
     obj_type = ex_uint64, obj_shape = [5, 3]\<rparr>"

definition ex_ids :: h5obj where
  "ex_ids = \<lparr>obj_kind = Dataset, obj_name = ''/ids'', obj_parent_name = ''/'',
     obj_attrs = [ex_attr ''units'' (PyBytes ''1'')],
     obj_type = ex_uint64, obj_shape = [3]\<rparr>"

definition ex_old :: h5obj where
  "ex_old = \<lparr>obj_kind = Dataset, obj_name = ''/t'', obj_parent_name = ''/'',
     obj_attrs = [], obj_type = ex_time, obj_shape = [7]\<rparr>"

definition ex_noted :: h5obj where
  "ex_noted = \<lparr>obj_kind = Dataset, obj_name = ''/x'', obj_parent_name = ''/'',
     obj_attrs = [ex_attr ''CLASS'' (PyBytes ''DIMENSION_SCALE''),
                  ex_attr ''comment''
                    (PyBytes ''This is a netCDF dimension but not a netCDF variable.'')],
     obj_type = ex_float32, obj_shape = [4]\<rparr>"

definition ex_scalar :: h5obj where
  "ex_scalar = \<lparr>obj_kind = Dataset, obj_name = ''/s'', obj_parent_name = ''/'',
     obj_attrs = [ex_attr ''CLASS'' (PyBytes ''DIMENSION_SCALE'')],
     obj_type = ex_float32, obj_shape = []\<rparr>"

definition ex_text :: h5obj where
  "ex_text = \<lparr>obj_kind = Dataset, obj_name = ''/y'', obj_parent_name = ''/'',
     obj_attrs = [ex_attr ''CLASS'' (PyStr ''DIMENSION_SCALE'')],
     obj_type = ex_float32, obj_shape = [2]\<rparr>"

definition ex_file :: "h5obj list \<Rightarrow> h5file" where
  "ex_file objs =
     \<lparr>file_attrs = [ex_attr ''NAME'' (PyBytes ''root''), ex_attr ''history'' (PyBytes ''made'')],
      file_items = objs,
      getitem_name = (\<lambda>v. Inl (ValueError ''Invalid HDF5 object reference''))\<rparr>"

definition ex_host :: host where
  "ex_host =
     \<lparr>files = [''a.h5'' \<mapsto> ex_file [ex_lat, ex_grp, ex_cnt],
               ''b.h5'' \<mapsto> ex_file [ex_lat, ex_old],
               ''c.h5'' \<mapsto> ex_file [ex_scalar],
               ''d.h5'' \<mapsto> ex_file [ex_noted, ex_text]],
      file_url = (\<lambda>n. ''file:///data/'' @ n)\<rparr>"

text \<open>The state in which the root of a new document is registered.\<close>

definition ex_root :: pstate where
  "ex_root =
     \<lparr>grp_node = [''/'' \<mapsto> 0],
      nodes = [\<lparr>tag = QName ns_nc ''netcdf'', attrib = [], children = []\<rparr>],
      open_files = 1\<rparr>"

subsection \<open>Notions used in the proofs\<close>

text \<open>The tag and the attributes of every element created so far, in creation order.\<close>

definition labels :: "pstate \<Rightarrow> (string \<times> (string \<times> string) list) list" where
  "labels st = map (\<lambda>e. (tag e, attrib e)) (nodes st)"

text \<open>An \<^verbatim>\<open><attribute>\<close> element whose name is none of the four internal names.\<close>

definition user_attr :: "string \<times> (string \<times> string) list \<Rightarrow> bool" where
  "user_attr l \<longleftrightarrow>
     fst l = QName ns_nc ''attribute'' \<and>
     (\<exists>n. map_of (snd l) ''name'' = Some n \<and> n \<notin> set internal_names)"

text \<open>The elements a variable brings: the \<^verbatim>\<open><variable>\<close> itself and attribute elements.\<close>

definition var_label :: "string \<times> (string \<times> string) list \<Rightarrow> bool" where
  "var_label l \<longleftrightarrow> fst l = QName ns_nc ''variable'' \<or> user_attr l"

text \<open>The elements a conversion creates.\<close>

definition walker_label :: "string \<times> (string \<times> string) list \<Rightarrow> bool" where
  "walker_label l \<longleftrightarrow>
     fst l = QName ns_nc ''netcdf'' \<or> fst l = QName ns_nc ''group'' \<or>
     fst l = QName ns_nc ''dimension'' \<or> var_label l"

text \<open>
  The elements of a document: those reachable from its root through the lists of
  children.
\<close>

inductive reach :: "element list \<Rightarrow> nat \<Rightarrow> nat \<Rightarrow> bool" for ns :: "element list" and r :: nat where
  reach_root: "reach ns r r"
| reach_child: "reach ns r i \<Longrightarrow> i < length ns \<Longrightarrow> k \<in> set (children (ns ! i)) \<Longrightarrow> reach ns r k"

text \<open>
  The elements created from index \<open>n0\<close> on have only children that were created from
  \<open>n0\<close> on as well.
\<close>

definition grown :: "nat \<Rightarrow> pstate \<Rightarrow> bool" where
  "grown n0 st \<longleftrightarrow>
     n0 \<le> length (nodes st) \<and>
     (\<forall>i k. n0 \<le> i \<and> i < length (nodes st) \<and> k \<in> set (children (nodes st ! i)) \<longrightarrow>
        n0 \<le> k \<and> k < length (nodes st))"

text \<open>
  From one state to a later one, elements were only added, each satisfying \<open>P\<close>, and no
  element changed its tag or its attributes.
\<close>

definition extends :: "(string \<times> (string \<times> string) list \<Rightarrow> bool) \<Rightarrow> pstate \<Rightarrow> pstate \<Rightarrow> bool" where
  "extends P st st' \<longleftrightarrow> (\<exists>new. labels st' = labels st @ new \<and> list_all P new)"

text \<open>The state in which a variable element is attached (lines 172 to 175).\<close>

definition variable_state :: "string \<Rightarrow> string \<Rightarrow> bool \<Rightarrow> string list \<Rightarrow> pstate \<Rightarrow> pstate" where
  "variable_state nm ty u shp st =
     (let st1 = snd (alloc (nc_var [(''name'', nm), (''type'', ty), (''shape'', join '' '' shp)]) st)
      in if u
         then append_child (length (nodes st)) (length (nodes st1))
                (snd (alloc (nc_attr [(''name'', ''_Unsigned''), (''value'', ''true'')]) st1))
         else st1)"

text \<open>The state in which the root's attributes are serialized (lines 192 to 208).\<close>

definition root_state :: "host \<Rightarrow> string \<Rightarrow> pstate \<Rightarrow> pstate" where
  "root_state h h5fname st =
     (snd (alloc \<lparr>tag = QName ns_nc ''netcdf'',
                   attrib = [(QName ns_xsi ''schemaLocation'',
                              ''http://www.unidata.ucar.edu/schemas/netcdf/ncml-2.2.xsd''),
                             (''location'', file_url h h5fname)],
                   children = []\<rparr>
            (st\<lparr>open_files := Suc (open_files st)\<rparr>)))
       \<lparr>grp_node := (grp_node st)(''/'' \<mapsto> length (nodes st))\<rparr>"

section \<open>Properties\<close>

subsection \<open>The dimension-scale classifier\<close>






subsection \<open>The type translator\<close>

text \<open>
  Claim C2. An integer of 1, 2, 4 or 8 bytes is byte, short, int or long, unsigned exactly
  when its sign is \<open>SGN_NONE\<close>; a float of 4 or 8 bytes is float or double; a string is
  String, an opaque type opaque, a compound type Structure; the unsigned flag of every
  class but integer is false.
\<close>

theorem ncml_dtype_table:
  "(get_class t = INTEGER \<and> get_size t = 1 \<longrightarrow> ncml_dtype t = Inr (''byte'', get_sign t = SGN_NONE)) \<and>
   (get_class t = INTEGER \<and> get_size t = 2 \<longrightarrow> ncml_dtype t = Inr (''short'', get_sign t = SGN_NONE)) \<and>
   (get_class t = INTEGER \<and> get_size t = 4 \<longrightarrow> ncml_dtype t = Inr (''int'', get_sign t = SGN_NONE)) \<and>
   (get_class t = INTEGER \<and> get_size t = 8 \<longrightarrow> ncml_dtype t = Inr (''long'', get_sign t = SGN_NONE)) \<and>
   (get_class t = FLOAT \<and> get_size t = 4 \<longrightarrow> ncml_dtype t = Inr (''float'', False)) \<and>
   (get_class t = FLOAT \<and> get_size t = 8 \<longrightarrow> ncml_dtype t = Inr (''double'', False)) \<and>
   (get_class t = STRING \<longrightarrow> ncml_dtype t = Inr (''String'', False)) \<and>
   (get_class t = OPAQUE \<longrightarrow> ncml_dtype t = Inr (''opaque'', False)) \<and>
   (get_class t = COMPOUND \<longrightarrow> ncml_dtype t = Inr (''Structure'', False)) \<and>
   (\<forall>n u. ncml_dtype t = Inr (n, u) \<and> get_class t \<noteq> INTEGER \<longrightarrow> \<not> u)"
  by (auto simp: ncml_dtype_def integer_size_def float_size_def
           split: h5t_class.splits option.splits)

theorem ncml_dtype_table_witness:
  "ncml_dtype \<lparr>get_class = INTEGER, get_size = 1, get_sign = SGN_2\<rparr> = Inr (''byte'', False) \<and>
   ncml_dtype \<lparr>get_class = INTEGER, get_size = 2, get_sign = SGN_NONE\<rparr> = Inr (''short'', True) \<and>
   ncml_dtype \<lparr>get_class = INTEGER, get_size = 4, get_sign = SGN_2\<rparr> = Inr (''int'', False) \<and>
   ncml_dtype \<lparr>get_class = INTEGER, get_size = 8, get_sign = SGN_NONE\<rparr> = Inr (''long'', True) \<and>
   ncml_dtype \<lparr>get_class = FLOAT, get_size = 4, get_sign = SGN_2\<rparr> = Inr (''float'', False) \<and>
   ncml_dtype \<lparr>get_class = FLOAT, get_size = 8, get_sign = SGN_2\<rparr> = Inr (''double'', False) \<and>
   ncml_dtype \<lparr>get_class = STRING, get_size = 3, get_sign = SGN_2\<rparr> = Inr (''String'', False) \<and>
   ncml_dtype \<lparr>get_class = OPAQUE, get_size = 3, get_sign = SGN_2\<rparr> = Inr (''opaque'', False) \<and>
   ncml_dtype \<lparr>get_class = COMPOUND, get_size = 3, get_sign = SGN_NONE\<rparr> = Inr (''Structure'', False)"
  using ncml_dtype_table [of "\<lparr>get_class = INTEGER, get_size = 1, get_sign = SGN_2\<rparr>"]
    ncml_dtype_table [of "\<lparr>get_class = INTEGER, get_size = 2, get_sign = SGN_NONE\<rparr>"]
    ncml_dtype_table [of "\<lparr>get_class = INTEGER, get_size = 4, get_sign = SGN_2\<rparr>"]
    ncml_dtype_table [of "\<lparr>get_class = INTEGER, get_size = 8, get_sign = SGN_NONE\<rparr>"]
    ncml_dtype_table [of "\<lparr>get_class = FLOAT, get_size = 4, get_sign = SGN_2\<rparr>"]
    ncml_dtype_table [of "\<lparr>get_class = FLOAT, get_size = 8, get_sign = SGN_2\<rparr>"]
    ncml_dtype_table [of "\<lparr>get_class = STRING, get_size = 3, get_sign = SGN_2\<rparr>"]
    ncml_dtype_table [of "\<lparr>get_class = OPAQUE, get_size = 3, get_sign = SGN_2\<rparr>"]
    ncml_dtype_table [of "\<lparr>get_class = COMPOUND, get_size = 3, get_sign = SGN_NONE\<rparr>"]
  by simp

text \<open>
  Claim C6. The classes time, bitfield, reference and array fail with a \<open>TypeError\<close>
  whose message names the class; enum and variable-length fail with a
  \<open>NotImplementedError\<close>; a class code outside the named ones fails with a
  \<open>ValueError\<close>; an integer or a float whose size is none of 1, 2, 4, 8 fails with the
  \<open>KeyError\<close> of the dictionary lookup.
\<close>

theorem ncml_dtype_errors:
  "(get_class t = TIME \<longrightarrow>
      ncml_dtype t = Inl (TypeError ''H5T_TIME datatype not supported in NcML'')) \<and>
   (get_class t = BITFIELD \<longrightarrow>
      ncml_dtype t = Inl (TypeError ''H5T_BITFIELD datatype not supported in NcML'')) \<and>
   (get_class t = REFERENCE \<longrightarrow>
      ncml_dtype t = Inl (TypeError ''H5T_REFERENCE datatype not supported in NcML'')) \<and>
   (get_class t = ARRAY \<longrightarrow>
      ncml_dtype t = Inl (TypeError ''H5T_ARRAY datatype not supported in NcML'')) \<and>
   (get_class t = ENUM \<longrightarrow>
      ncml_dtype t = Inl (NotImplementedError ''H5T_ENUM datatype in NcML not supported yet'')) \<and>
   (get_class t = VLEN \<longrightarrow>
      ncml_dtype t = Inl (NotImplementedError ''H5T_VLEN datatype in NcML not supported yet'')) \<and>
   (\<forall>c. get_class t = OTHER c \<longrightarrow>
      ncml_dtype t = Inl (ValueError (str_int c @ '': Unknown type class''))) \<and>
   ((get_class t = INTEGER \<or> get_class t = FLOAT) \<and> get_size t \<notin> {1, 2, 4, 8} \<longrightarrow>
      ncml_dtype t = Inl (KeyError (str_nat (get_size t))))"
  by (auto simp: ncml_dtype_def integer_size_def float_size_def)

theorem ncml_dtype_errors_witness:
  "ncml_dtype \<lparr>get_class = TIME, get_size = 4, get_sign = SGN_2\<rparr> =
     Inl (TypeError ''H5T_TIME datatype not supported in NcML'') \<and>
   ncml_dtype \<lparr>get_class = BITFIELD, get_size = 4, get_sign = SGN_2\<rparr> =
     Inl (TypeError ''H5T_BITFIELD datatype not supported in NcML'') \<and>
   ncml_dtype \<lparr>get_class = REFERENCE, get_size = 8, get_sign = SGN_2\<rparr> =
     Inl (TypeError ''H5T_REFERENCE datatype not supported in NcML'') \<and>
   ncml_dtype \<lparr>get_class = ARRAY, get_size = 8, get_sign = SGN_2\<rparr> =
     Inl (TypeError ''H5T_ARRAY datatype not supported in NcML'') \<and>
   ncml_dtype \<lparr>get_class = ENUM, get_size = 1, get_sign = SGN_2\<rparr> =
     Inl (NotImplementedError ''H5T_ENUM datatype in NcML not supported yet'') \<and>
   ncml_dtype \<lparr>get_class = VLEN, get_size = 16, get_sign = SGN_2\<rparr> =
     Inl (NotImplementedError ''H5T_VLEN datatype in NcML not supported yet'') \<and>
   ncml_dtype \<lparr>get_class = OTHER (- 1), get_size = 0, get_sign = SGN_2\<rparr> =
     Inl (ValueError ''-1: Unknown type class'') \<and>
   ncml_dtype \<lparr>get_class = INTEGER, get_size = 3, get_sign = SGN_2\<rparr> = Inl (KeyError ''3'') \<and>
   ncml_dtype \<lparr>get_class = FLOAT, get_size = 16, get_sign = SGN_2\<rparr> = Inl (KeyError ''16'')"
  using ncml_dtype_errors [of "\<lparr>get_class = TIME, get_size = 4, get_sign = SGN_2\<rparr>"]
    ncml_dtype_errors [of "\<lparr>get_class = BITFIELD, get_size = 4, get_sign = SGN_2\<rparr>"]
    ncml_dtype_errors [of "\<lparr>get_class = REFERENCE, get_size = 8, get_sign = SGN_2\<rparr>"]
    ncml_dtype_errors [of "\<lparr>get_class = ARRAY, get_size = 8, get_sign = SGN_2\<rparr>"]
    ncml_dtype_errors [of "\<lparr>get_class = ENUM, get_size = 1, get_sign = SGN_2\<rparr>"]
    ncml_dtype_errors [of "\<lparr>get_class = VLEN, get_size = 16, get_sign = SGN_2\<rparr>"]
    ncml_dtype_errors [of "\<lparr>get_class = OTHER (- 1), get_size = 0, get_sign = SGN_2\<rparr>"]
    ncml_dtype_errors [of "\<lparr>get_class = INTEGER, get_size = 3, get_sign = SGN_2\<rparr>"]
    ncml_dtype_errors [of "\<lparr>get_class = FLOAT, get_size = 16, get_sign = SGN_2\<rparr>"]
  by (simp add: str_int_def digit_def)

subsection \<open>Effects of the serializer and the callback on the state\<close>

lemma labels_alloc: "labels (snd (alloc e st)) = labels st @ [(tag e, attrib e)]"
  by (simp add: labels_def alloc_def)

lemma labels_append_child: "labels (append_child p c st) = labels st"
proof (cases "p < length (nodes st)")
  case True
  have "map (\<lambda>e. (tag e, attrib e))
          ((nodes st)[p := (nodes st ! p)\<lparr>children := children (nodes st ! p) @ [c]\<rparr>]) =
        map (\<lambda>e. (tag e, attrib e)) (nodes st)"
    using True by (intro nth_equalityI) (simp_all add: nth_list_update)
  then show ?thesis by (simp add: labels_def append_child_def)
next
  case False
  then show ?thesis by (simp add: labels_def append_child_def list_update_beyond)
qed

lemma length_labels: "length (labels st) = length (nodes st)"
  by (simp add: labels_def)

lemma attribute_xml_user:
  assumes "attribute_xml a = Inr ax" "aname a \<notin> set internal_names"
  shows "user_attr (tag ax, attrib ax) \<and> children ax = []"
proof -
  from assms(1) obtain ty u vtext where
    ax: "ax = (if u then (nc_attr [(''name'', aname a), (''type'', ty), (''value'', vtext)])
                 \<lparr>attrib := AList.update ''isUnsigned'' ''true''
                    (attrib (nc_attr [(''name'', aname a), (''type'', ty), (''value'', vtext)]))\<rparr>
               else nc_attr [(''name'', aname a), (''type'', ty), (''value'', vtext)])"
    by (auto simp: attribute_xml_def Let_def split: sum.splits prod.splits)
  show ?thesis
    using assms(2) by (cases u) (simp_all add: ax user_attr_def nc_attr_def E_def)
qed

lemma do_attributes_Cons:
  "do_attributes el (a # as) st =
     (if aname a \<in> set internal_names then do_attributes el as st
      else case attribute_xml a of
             Inl e \<Rightarrow> (Inl e, st)
           | Inr ax \<Rightarrow> do_attributes el as (append_child el (length (nodes st)) (snd (alloc ax st))))"
  by (simp add: alloc_def split: sum.splits)

declare do_attributes.simps(2) [simp del]


lemma do_attributes_labels:
  "\<exists>new. labels (snd (do_attributes el as st)) = labels st @ new \<and> list_all user_attr new"
proof (induction as arbitrary: st)
  case Nil
  show ?case by simp
next
  case (Cons a as)
  show ?case
  proof (cases "aname a \<in> set internal_names")
    case True
    then show ?thesis using Cons [of st] by (simp add: do_attributes_Cons)
  next
    case False
    show ?thesis
    proof (cases "attribute_xml a")
      case (Inl e)
      then show ?thesis using False by (simp add: do_attributes_Cons)
    next
      case (Inr ax)
      let ?st = "append_child el (length (nodes st)) (snd (alloc ax st))"
      from Cons [of ?st] obtain new where
        new: "labels (snd (do_attributes el as ?st)) = labels ?st @ new" "list_all user_attr new"
        by blast
      have "labels (snd (do_attributes el (a # as) st)) = labels st @ ((tag ax, attrib ax) # new)"
        using False Inr new(1) by (simp add: do_attributes_Cons labels_append_child labels_alloc)
      moreover have "list_all user_attr ((tag ax, attrib ax) # new)"
        using attribute_xml_user [OF Inr False] new(2) by simp
      ultimately show ?thesis by blast
    qed
  qed
qed

lemma do_attributes_frame:
  "grp_node (snd (do_attributes el as st)) = grp_node st \<and>
   open_files (snd (do_attributes el as st)) = open_files st"
proof (induction as arbitrary: st)
  case Nil
  show ?case by simp
next
  case (Cons a as)
  show ?case
    using Cons [of st] Cons [of "append_child el (length (nodes st)) (snd (alloc ax st))" for ax]
    by (simp add: do_attributes_Cons append_child_def alloc_def split: sum.splits)
qed

lemma do_attributes_fst: "fst (do_attributes el as st) = fst (do_attributes el' as st')"
proof (induction as arbitrary: st st')
  case Nil
  show ?case by simp
next
  case (Cons a as)
  show ?case
    using Cons [of st st']
      Cons [of "append_child el (length (nodes st)) (snd (alloc ax st))"
               "append_child el' (length (nodes st')) (snd (alloc ax st'))" for ax]
    by (simp add: do_attributes_Cons split: sum.splits)
qed


lemma alloc_frame [simp]:
  "grp_node (snd (alloc e st)) = grp_node st" "open_files (snd (alloc e st)) = open_files st"
  "nodes (snd (alloc e st)) = nodes st @ [e]" "fst (alloc e st) = length (nodes st)"
  by (simp_all add: alloc_def)

lemma append_child_frame [simp]:
  "grp_node (append_child p c st) = grp_node st"
  "open_files (append_child p c st) = open_files st"
  "length (nodes (append_child p c st)) = length (nodes st)"
  by (simp_all add: append_child_def)

lemma objinfo_tail_frame:
  "grp_node (snd (objinfo_tail el obj st)) = grp_node st \<and>
   open_files (snd (objinfo_tail el obj st)) = open_files st"
  by (simp add: objinfo_tail_def do_attributes_frame split: option.splits)

lemma objinfo_variable_eq:
  "objinfo_variable f obj st =
     (case ncml_dtype (obj_type obj) of
        Inl e \<Rightarrow> (Inl e, st)
      | Inr (ty, u) \<Rightarrow>
          (case dataset_shape f obj of
             Inl e \<Rightarrow> (Inl e, st)
           | Inr shp \<Rightarrow>
               objinfo_tail (length (nodes st)) obj
                 (variable_state (basename (obj_name obj)) ty u shp st)))"
  by (simp add: objinfo_variable_def variable_state_def alloc_def Let_def
           split: sum.splits prod.splits)


lemma objinfo_Group:
  "obj_kind obj = Group \<Longrightarrow>
   objinfo f obj st =
     (if grp_node st (obj_name obj) \<noteq> None
      then (Inl (RuntimeError (obj_name obj @ '': XML node already exists'')), st)
      else objinfo_tail (length (nodes st)) obj
             ((snd (alloc (nc_group [(''name'', basename (obj_name obj))]) st))
                \<lparr>grp_node := (grp_node st)(obj_name obj \<mapsto> length (nodes st))\<rparr>))"
  by (simp add: objinfo_def alloc_def Let_def)

lemma objinfo_Other:
  "obj_kind obj = Other \<Longrightarrow>
   objinfo f obj st = (Inl (TypeError (''Unexpected HDF5 object: '' @ obj_name obj)), st)"
  by (simp add: objinfo_def)

lemma objinfo_Dataset_plain:
  "obj_kind obj = Dataset \<Longrightarrow> \<not> is_dimscale (obj_attrs obj) \<Longrightarrow>
   objinfo f obj st = objinfo_variable f obj st"
  by (simp add: objinfo_def)

lemma objinfo_Dataset_scalar:
  "obj_kind obj = Dataset \<Longrightarrow> is_dimscale (obj_attrs obj) \<Longrightarrow> obj_shape obj = [] \<Longrightarrow>
   objinfo f obj st = (Inl (IndexError ''tuple index out of range''), st)"
  by (simp add: objinfo_def)

lemma objinfo_Dataset_dim:
  "obj_kind obj = Dataset \<Longrightarrow> is_dimscale (obj_attrs obj) \<Longrightarrow> obj_shape obj = d # ds \<Longrightarrow>
   objinfo f obj st =
     (case grp_node st (obj_parent_name obj) of
        None \<Rightarrow>
          (Inl (KeyError (obj_parent_name obj)),
           snd (alloc (nc_dim [(''name'', basename (obj_name obj)), (''length'', str_nat d)]) st))
      | Some p \<Rightarrow>
          (case startswith (attrs_get_default (obj_attrs obj) ''NAME'' (PyBytes []))
                  dimension_only_marker of
             Inl e \<Rightarrow>
               (Inl e, append_child p (length (nodes st))
                  (snd (alloc (nc_dim [(''name'', basename (obj_name obj)),
                                       (''length'', str_nat d)]) st)))
           | Inr b \<Rightarrow>
               (if b
                then (Inr (), append_child p (length (nodes st))
                       (snd (alloc (nc_dim [(''name'', basename (obj_name obj)),
                                            (''length'', str_nat d)]) st)))
                else objinfo_variable f obj
                       (append_child p (length (nodes st))
                          (snd (alloc (nc_dim [(''name'', basename (obj_name obj)),
                                               (''length'', str_nat d)]) st))))))"
  by (simp add: objinfo_def alloc_def Let_def split: option.splits sum.splits bool.splits)

lemma objinfo_variable_frame:
  "grp_node (snd (objinfo_variable f obj st)) = grp_node st \<and>
   open_files (snd (objinfo_variable f obj st)) = open_files st"
  by (simp add: objinfo_variable_eq objinfo_tail_frame variable_state_def Let_def
           split: sum.splits prod.splits)

lemma objinfo_open_files: "open_files (snd (objinfo f obj st)) = open_files st"
proof (cases "obj_kind obj")
  case Group
  then show ?thesis by (simp add: objinfo_Group objinfo_tail_frame)
next
  case Dataset
  show ?thesis
  proof (cases "is_dimscale (obj_attrs obj)")
    case False
    then show ?thesis using Dataset by (simp add: objinfo_Dataset_plain objinfo_variable_frame)
  next
    case True
    show ?thesis
    proof (cases "obj_shape obj")
      case Nil
      then show ?thesis using Dataset True by (simp add: objinfo_Dataset_scalar)
    next
      case (Cons d ds)
      show ?thesis
        by (simp add: objinfo_Dataset_dim [OF Dataset True Cons] objinfo_variable_frame
                 split: option.splits sum.splits)
    qed
  qed
next
  case Other
  then show ?thesis by (simp add: objinfo_Other)
qed

lemma objinfo_grp_node_Dataset:
  "obj_kind obj = Dataset \<Longrightarrow> grp_node (snd (objinfo f obj st)) = grp_node st"
proof (cases "is_dimscale (obj_attrs obj)")
  case False
  assume "obj_kind obj = Dataset"
  then show ?thesis using False by (simp add: objinfo_Dataset_plain objinfo_variable_frame)
next
  case True
  assume ds: "obj_kind obj = Dataset"
  show ?thesis
  proof (cases "obj_shape obj")
    case Nil
    then show ?thesis using ds True by (simp add: objinfo_Dataset_scalar)
  next
    case (Cons d ds')
    show ?thesis
      by (simp add: objinfo_Dataset_dim [OF ds True Cons] objinfo_variable_frame
               split: option.splits sum.splits)
  qed
qed

lemma objinfo_dom: "dom (grp_node st) \<subseteq> dom (grp_node (snd (objinfo f obj st)))"
proof (cases "obj_kind obj")
  case Group
  then show ?thesis by (auto simp: objinfo_Group objinfo_tail_frame)
next
  case Dataset
  then show ?thesis by (simp add: objinfo_grp_node_Dataset)
next
  case Other
  then show ?thesis by (simp add: objinfo_Other)
qed

lemma visititems_open_files: "open_files (snd (visititems f objs st)) = open_files st"
proof (induction objs arbitrary: st)
  case Nil
  show ?case by simp
next
  case (Cons obj objs)
  show ?case
    using objinfo_open_files [of f obj st] Cons [of "snd (objinfo f obj st)"]
    by (cases "objinfo f obj st") (auto split: sum.splits)
qed

lemma visititems_dom: "dom (grp_node st) \<subseteq> dom (grp_node (snd (visititems f objs st)))"
proof (induction objs arbitrary: st)
  case Nil
  show ?case by simp
next
  case (Cons obj objs)
  show ?case
    using objinfo_dom [of st f obj] Cons [of "snd (objinfo f obj st)"]
    by (cases "objinfo f obj st") (auto split: sum.splits)
qed


lemma h5toncml_None: "files h fn = None \<Longrightarrow> h5toncml h fn st = (Inl (OSError fn), st)"
  by (simp add: h5toncml_def)

lemma h5toncml_Some:
  "files h fn = Some f \<Longrightarrow>
   h5toncml h fn st =
     (case do_attributes (length (nodes st)) (file_attrs f) (root_state h fn st) of
        (Inl e, st3) \<Rightarrow> (Inl e, st3)
      | (Inr u, st3) \<Rightarrow>
          (case visititems f (file_items f) st3 of
             (Inl e, st4) \<Rightarrow> (Inl e, st4)
           | (Inr u', st4) \<Rightarrow> (Inr (length (nodes st)), st4\<lparr>open_files := open_files st4 - 1\<rparr>)))"
  by (simp add: h5toncml_def root_state_def alloc_def Let_def split: prod.splits sum.splits)

lemma root_state_frame [simp]:
  "open_files (root_state h fn st) = Suc (open_files st)"
  "grp_node (root_state h fn st) = (grp_node st)(''/'' \<mapsto> length (nodes st))"
  by (simp_all add: root_state_def alloc_def)

lemma h5toncml_open_files:
  assumes "h5toncml h fn st = (r, st')"
  shows "(files h fn = None \<longrightarrow> r = Inl (OSError fn) \<and> st' = st) \<and>
         (files h fn \<noteq> None \<longrightarrow>
            open_files st' = (case r of Inl e \<Rightarrow> Suc (open_files st) | Inr root \<Rightarrow> open_files st))"
proof (cases "files h fn")
  case None
  then show ?thesis using assms by (simp add: h5toncml_None)
next
  case (Some f)
  obtain r3 st3 where d: "do_attributes (length (nodes st)) (file_attrs f) (root_state h fn st) = (r3, st3)"
    by (cases "do_attributes (length (nodes st)) (file_attrs f) (root_state h fn st)")
  have o3: "open_files st3 = Suc (open_files st)"
    using do_attributes_frame [of "length (nodes st)" "file_attrs f" "root_state h fn st"] d by simp
  obtain r4 st4 where v: "visititems f (file_items f) st3 = (r4, st4)"
    by (cases "visititems f (file_items f) st3")
  have o4: "open_files st4 = Suc (open_files st)"
    using visititems_open_files [of f "file_items f" st3] v o3 by simp
  show ?thesis
    using assms Some d v o3 o4
    by (cases r3; cases r4) (auto simp: h5toncml_Some)
qed

lemma ex_b_result:
  "fst (h5toncml ex_host ''b.h5'' init_state) =
     Inl (TypeError ''H5T_TIME datatype not supported in NcML'')"
  by code_simp

lemma ex_b_open: "open_files (snd (h5toncml ex_host ''b.h5'' init_state)) = 1"
  by code_simp

lemma ex_a_result: "fst (h5toncml ex_host ''a.h5'' init_state) = Inr 0"
  by code_simp

lemma ex_a_open: "open_files (snd (h5toncml ex_host ''a.h5'' init_state)) = 0"
  by code_simp

text \<open>
  Claim C3, as the code has it. The conversion closes the file only on the path that
  returns the document: when a step fails after the file was opened, the exception
  leaves \<^verbatim>\<open>h5toncml\<close> before \<^verbatim>\<open>f.close()\<close>, no document is returned, and the handle the
  call opened stays open. When the file cannot be opened, nothing changes.
\<close>

theorem h5toncml_file_handle:
  assumes "h5toncml h fn st = (r, st')"
  shows "(files h fn = None \<longrightarrow> r = Inl (OSError fn) \<and> st' = st) \<and>
         (files h fn \<noteq> None \<longrightarrow>
            open_files st' = (case r of Inl e \<Rightarrow> Suc (open_files st) | Inr root \<Rightarrow> open_files st))"
  using h5toncml_open_files [OF assms] .

theorem h5toncml_file_handle_witness:
  "fst (h5toncml ex_host ''a.h5'' init_state) = Inr 0 \<and>
   open_files (snd (h5toncml ex_host ''a.h5'' init_state)) = open_files init_state \<and>
   open_files (snd (h5toncml ex_host ''b.h5'' init_state)) = Suc (open_files init_state) \<and>
   h5toncml ex_host ''none.h5'' init_state = (Inl (OSError ''none.h5''), init_state)"
proof -
  have fa: "files ex_host ''a.h5'' \<noteq> None" and fb: "files ex_host ''b.h5'' \<noteq> None"
    and fn: "files ex_host ''none.h5'' = None"
    by (simp_all add: ex_host_def)
  show ?thesis
    using h5toncml_file_handle
            [of ex_host "''a.h5''" init_state "fst (h5toncml ex_host ''a.h5'' init_state)"
                "snd (h5toncml ex_host ''a.h5'' init_state)"]
          h5toncml_file_handle
            [of ex_host "''b.h5''" init_state "fst (h5toncml ex_host ''b.h5'' init_state)"
                "snd (h5toncml ex_host ''b.h5'' init_state)"]
          h5toncml_file_handle
            [of ex_host "''none.h5''" init_state "fst (h5toncml ex_host ''none.h5'' init_state)"
                "snd (h5toncml ex_host ''none.h5'' init_state)"]
          fa fb fn ex_a_result ex_b_result
    by (simp add: prod_eq_iff)
qed

text \<open>
  The claim as stated fails: a dataset of class time makes the conversion fail after the
  file was opened, and the handle is still open afterwards.
\<close>

theorem h5toncml_leaves_file_open:
  "fst (h5toncml ex_host ''b.h5'' init_state) =
     Inl (TypeError ''H5T_TIME datatype not supported in NcML'') \<and>
   open_files init_state = 0 \<and>
   open_files (snd (h5toncml ex_host ''b.h5'' init_state)) = 1"
  using ex_b_result ex_b_open by (simp add: init_state_def)

subsection \<open>A dimension scale without axes\<close>

lemma visititems_append:
  "visititems f (pre @ post) st =
     (case visititems f pre st of
        (Inl e, s) \<Rightarrow> (Inl e, s)
      | (Inr u, s) \<Rightarrow> visititems f post s)"
proof (induction pre arbitrary: st)
  case Nil
  show ?case by simp
next
  case (Cons obj pre)
  show ?case
    using Cons [of "snd (objinfo f obj st)"]
    by (cases "objinfo f obj st") (auto split: sum.splits)
qed







subsection \<open>A dimension without a variable\<close>








subsection \<open>The unsigned marker of a variable\<close>

lemma labels_nth:
  "i < length (nodes st) \<Longrightarrow> tag (nodes st ! i) = fst (labels st ! i) \<and> attrib (nodes st ! i) = snd (labels st ! i)"
  by (simp add: labels_def)


lemma children_append_child:
  "i < length (nodes st) \<Longrightarrow>
   children (nodes (append_child p c st) ! i) = children (nodes st ! i) @ (if i = p then [c] else [])"
  by (simp add: append_child_def nth_list_update)

lemma do_attributes_children:
  "i < length (nodes st) \<Longrightarrow>
   \<exists>ks. children (nodes (snd (do_attributes el as st)) ! i) = children (nodes st ! i) @ ks"
proof (induction as arbitrary: st)
  case Nil
  show ?case by simp
next
  case (Cons a as)
  show ?case
  proof (cases "aname a \<in> set internal_names")
    case True
    then show ?thesis using Cons by (simp add: do_attributes_Cons)
  next
    case False
    show ?thesis
    proof (cases "attribute_xml a")
      case (Inl e)
      then show ?thesis using False by (simp add: do_attributes_Cons)
    next
      case (Inr ax)
      let ?st = "append_child el (length (nodes st)) (snd (alloc ax st))"
      have i: "i < length (nodes ?st)" using Cons.prems by simp
      have c: "children (nodes ?st ! i) =
               children (nodes st ! i) @ (if i = el then [length (nodes st)] else [])"
        using Cons.prems by (simp add: children_append_child nth_append)
      from Cons.IH [OF i] obtain ks where
        "children (nodes (snd (do_attributes el as ?st)) ! i) = children (nodes ?st ! i) @ ks"
        by blast
      then show ?thesis using False Inr c by (simp add: do_attributes_Cons)
    qed
  qed
qed


lemma objinfo_tail_labels:
  "\<exists>new. labels (snd (objinfo_tail el obj st)) = labels st @ new \<and> list_all user_attr new"
proof (cases "grp_node st (obj_parent_name obj)")
  case None
  then show ?thesis by (simp add: objinfo_tail_def)
next
  case (Some p)
  then show ?thesis
    using do_attributes_labels [of el "obj_attrs obj" "append_child p el st"]
    by (simp add: objinfo_tail_def labels_append_child)
qed

lemma objinfo_tail_children:
  assumes "fst (objinfo_tail el obj st) = Inr ()" "i < length (nodes st)"
  shows "\<exists>p ks. grp_node st (obj_parent_name obj) = Some p \<and>
           children (nodes (snd (objinfo_tail el obj st)) ! i) =
             children (nodes st ! i) @ (if i = p then [el] else []) @ ks"
proof (cases "grp_node st (obj_parent_name obj)")
  case None
  then show ?thesis using assms(1) by (simp add: objinfo_tail_def)
next
  case (Some p)
  have i: "i < length (nodes (append_child p el st))" using assms(2) by simp
  from do_attributes_children [OF i, of el "obj_attrs obj"] obtain ks where
    "children (nodes (snd (do_attributes el (obj_attrs obj) (append_child p el st))) ! i) =
     children (nodes (append_child p el st) ! i) @ ks"
    by blast
  then show ?thesis
    using Some assms(2) by (simp add: objinfo_tail_def children_append_child)
qed

lemma variable_state_nodes:
  "nodes (variable_state nm ty u shp st) =
     nodes st @
       (if u
        then [(nc_var [(''name'', nm), (''type'', ty), (''shape'', join '' '' shp)])
                \<lparr>children := [Suc (length (nodes st))]\<rparr>,
              nc_attr [(''name'', ''_Unsigned''), (''value'', ''true'')]]
        else [nc_var [(''name'', nm), (''type'', ty), (''shape'', join '' '' shp)]])"
  by (simp add: variable_state_def Let_def append_child_def alloc_def list_update_append
        nth_append nc_var_def E_def)

lemma variable_state_frame [simp]:
  "grp_node (variable_state nm ty u shp st) = grp_node st"
  "open_files (variable_state nm ty u shp st) = open_files st"
  by (simp_all add: variable_state_def Let_def)


lemma variable_state_labels:
  "labels (variable_state nm ty u shp st) =
     labels st @
       (QName ns_nc ''variable'', [(''name'', nm), (''type'', ty), (''shape'', join '' '' shp)]) #
       (if u then [(QName ns_nc ''attribute'', [(''name'', ''_Unsigned''), (''value'', ''true'')])]
        else [])"
  by (simp add: labels_def variable_state_nodes nc_var_def nc_attr_def E_def)

lemma variable_state_children:
  "children (nodes (variable_state nm ty u shp st) ! length (nodes st)) =
     (if u then [Suc (length (nodes st))] else [])"
  by (simp add: variable_state_nodes nc_var_def E_def)

lemma objinfo_variable_success:
  assumes "objinfo_variable f obj st = (Inr (), st')"
  shows "\<exists>ty u shp p new ks.
           ncml_dtype (obj_type obj) = Inr (ty, u) \<and> dataset_shape f obj = Inr shp \<and>
           grp_node st (obj_parent_name obj) = Some p \<and>
           labels st' =
             labels st @
               (QName ns_nc ''variable'',
                [(''name'', basename (obj_name obj)), (''type'', ty), (''shape'', join '' '' shp)]) #
               (if u then [(QName ns_nc ''attribute'', [(''name'', ''_Unsigned''), (''value'', ''true'')])]
                else []) @ new \<and>
           list_all user_attr new \<and>
           children (nodes st' ! length (nodes st)) =
             (if u then [Suc (length (nodes st))] else []) @
             (if length (nodes st) = p then [length (nodes st)] else []) @ ks"
proof -
  from assms obtain ty u where dt: "ncml_dtype (obj_type obj) = Inr (ty, u)"
    by (cases "ncml_dtype (obj_type obj)") (auto simp: objinfo_variable_eq)
  from assms dt obtain shp where sh: "dataset_shape f obj = Inr shp"
    by (cases "dataset_shape f obj") (auto simp: objinfo_variable_eq)
  define vs where "vs = variable_state (basename (obj_name obj)) ty u shp st"
  have t: "objinfo_tail (length (nodes st)) obj vs = (Inr (), st')"
    using assms dt sh by (simp add: objinfo_variable_eq vs_def)
  have v: "length (nodes st) < length (nodes vs)"
    by (simp add: vs_def variable_state_nodes)
  from objinfo_tail_labels [of "length (nodes st)" obj vs] t obtain new where
    new: "labels st' = labels vs @ new" "list_all user_attr new"
    by auto
  from objinfo_tail_children [of "length (nodes st)" obj vs, OF _ v] t obtain p ks where
    p: "grp_node vs (obj_parent_name obj) = Some p"
    and ch: "children (nodes st' ! length (nodes st)) =
             children (nodes vs ! length (nodes st)) @
             (if length (nodes st) = p then [length (nodes st)] else []) @ ks"
    by auto
  show ?thesis
    using dt sh p new ch
    by (simp add: vs_def variable_state_labels variable_state_children)
qed


lemma ncml_dtype_unsigned_integer:
  assumes "get_class t = INTEGER" "get_sign t = SGN_NONE" "ncml_dtype t = Inr (ty, u)"
  shows u
  using assms by (auto simp: ncml_dtype_def split: option.splits)

lemma objinfo_variable_unsigned:
  assumes "get_class (obj_type obj) = INTEGER" "get_sign (obj_type obj) = SGN_NONE"
    and "objinfo_variable f obj st = (Inr (), st')"
  shows "Suc (length (nodes st)) < length (nodes st') \<and>
         tag (nodes st' ! length (nodes st)) = QName ns_nc ''variable'' \<and>
         (\<exists>rest. children (nodes st' ! length (nodes st)) = Suc (length (nodes st)) # rest) \<and>
         tag (nodes st' ! Suc (length (nodes st))) = QName ns_nc ''attribute'' \<and>
         attrib (nodes st' ! Suc (length (nodes st))) = [(''name'', ''_Unsigned''), (''value'', ''true'')]"
proof -
  from objinfo_variable_success [OF assms(3)] obtain ty u shp p new ks where
    dt: "ncml_dtype (obj_type obj) = Inr (ty, u)"
    and lb: "labels st' =
             labels st @
               (QName ns_nc ''variable'',
                [(''name'', basename (obj_name obj)), (''type'', ty), (''shape'', join '' '' shp)]) #
               (if u then [(QName ns_nc ''attribute'', [(''name'', ''_Unsigned''), (''value'', ''true'')])]
                else []) @ new"
    and ch: "children (nodes st' ! length (nodes st)) =
             (if u then [Suc (length (nodes st))] else []) @
             (if length (nodes st) = p then [length (nodes st)] else []) @ ks"
    by blast
  have u: u using ncml_dtype_unsigned_integer [OF assms(1,2) dt] .
  have len: "Suc (length (nodes st)) < length (nodes st')"
    using arg_cong [OF lb, of length] u by (simp add: length_labels)
  have l0: "labels st' ! length (nodes st) =
        (QName ns_nc ''variable'',
         [(''name'', basename (obj_name obj)), (''type'', ty), (''shape'', join '' '' shp)])"
    by (simp add: lb nth_append length_labels)
  have l1: "labels st' ! Suc (length (nodes st)) =
        (QName ns_nc ''attribute'', [(''name'', ''_Unsigned''), (''value'', ''true'')])"
    using u by (simp add: lb nth_append length_labels)
  have i0: "length (nodes st) < length (nodes st')" using len by simp
  show ?thesis
    using len labels_nth [OF i0] labels_nth [OF len] l0 l1 ch u by simp
qed


lemma objinfo_dim_branch:
  assumes "obj_kind obj = Dataset" "is_dimscale (obj_attrs obj)" "objinfo f obj st = (Inr (), st')"
    and "startswith (attrs_get_default (obj_attrs obj) ''NAME'' (PyBytes []))
           dimension_only_marker \<noteq> Inr True"
  shows "\<exists>s. length (nodes s) = Suc (length (nodes st)) \<and> objinfo_variable f obj s = (Inr (), st')"
proof (cases "obj_shape obj")
  case Nil
  then show ?thesis using assms(1-3) by (simp add: objinfo_Dataset_scalar)
next
  case (Cons d ds)
  show ?thesis
  proof (cases "grp_node st (obj_parent_name obj)")
    case None
    then show ?thesis using assms(3) by (simp add: objinfo_Dataset_dim [OF assms(1,2) Cons])
  next
    case (Some p)
    let ?s = "append_child p (length (nodes st))
                (snd (alloc (nc_dim [(''name'', basename (obj_name obj)), (''length'', str_nat d)]) st))"
    let ?sw = "startswith (attrs_get_default (obj_attrs obj) ''NAME'' (PyBytes []))
                 dimension_only_marker"
    have eq: "objinfo f obj st =
          (case ?sw of Inl e \<Rightarrow> (Inl e, ?s)
           | Inr b \<Rightarrow> (if b then (Inr (), ?s) else objinfo_variable f obj ?s))"
      using Some by (simp add: objinfo_Dataset_dim [OF assms(1,2) Cons])
    have "objinfo_variable f obj ?s = (Inr (), st')"
    proof (cases ?sw)
      case (Inl e)
      then show ?thesis using eq assms(3) by simp
    next
      case (Inr b)
      then have "\<not> b" using assms(4) by simp
      then show ?thesis using eq assms(3) Inr by simp
    qed
    moreover have "length (nodes ?s) = Suc (length (nodes st))" by simp
    ultimately show ?thesis by blast
  qed
qed

text \<open>
  Claim C8. When the callback materializes a dataset of an unsigned integer type as a
  variable, the element created for it has the tag \<open>variable\<close>, and its first child is
  the element created next, an \<^verbatim>\<open><attribute>\<close> with exactly the attributes
  \<open>name="_Unsigned"\<close> and \<open>value="true"\<close>; the serialized attributes follow it.
\<close>

theorem unsigned_variable_first_child:
  assumes "obj_kind obj = Dataset"
    and "get_class (obj_type obj) = INTEGER" "get_sign (obj_type obj) = SGN_NONE"
    and "objinfo f obj st = (Inr (), st')"
    and "is_dimscale (obj_attrs obj) \<longrightarrow>
           startswith (attrs_get_default (obj_attrs obj) ''NAME'' (PyBytes []))
             dimension_only_marker \<noteq> Inr True"
    and "v = (if is_dimscale (obj_attrs obj) then Suc (length (nodes st)) else length (nodes st))"
  shows "Suc v < length (nodes st') \<and>
         tag (nodes st' ! v) = QName ns_nc ''variable'' \<and>
         (\<exists>rest. children (nodes st' ! v) = Suc v # rest) \<and>
         tag (nodes st' ! Suc v) = QName ns_nc ''attribute'' \<and>
         attrib (nodes st' ! Suc v) = [(''name'', ''_Unsigned''), (''value'', ''true'')]"
proof (cases "is_dimscale (obj_attrs obj)")
  case False
  then have "objinfo_variable f obj st = (Inr (), st')"
    using assms(1,4) by (simp add: objinfo_Dataset_plain)
  from objinfo_variable_unsigned [OF assms(2,3) this] show ?thesis
    using False assms(6) by simp
next
  case True
  from objinfo_dim_branch [OF assms(1) True assms(4)] assms(5) True obtain s where
    s: "length (nodes s) = Suc (length (nodes st))" "objinfo_variable f obj s = (Inr (), st')"
    by blast
  from objinfo_variable_unsigned [OF assms(2,3) s(2)] show ?thesis
    using True assms(6) s(1) by simp
qed


lemma ex_ids_result: "fst (objinfo (ex_file [ex_ids]) ex_ids ex_root) = Inr ()"
  by code_simp

lemma ex_ids_plain: "\<not> is_dimscale (obj_attrs ex_ids)"
  by code_simp

lemma ex_ids_children:
  "children (nodes (snd (objinfo (ex_file [ex_ids]) ex_ids ex_root)) ! 1) = [2, 3]"
  by code_simp

theorem unsigned_variable_first_child_witness:
  "fst (objinfo (ex_file [ex_ids]) ex_ids ex_root) = Inr () \<and>
   tag (nodes (snd (objinfo (ex_file [ex_ids]) ex_ids ex_root)) ! 1) = QName ns_nc ''variable'' \<and>
   children (nodes (snd (objinfo (ex_file [ex_ids]) ex_ids ex_root)) ! 1) = [2, 3] \<and>
   tag (nodes (snd (objinfo (ex_file [ex_ids]) ex_ids ex_root)) ! 2) = QName ns_nc ''attribute'' \<and>
   attrib (nodes (snd (objinfo (ex_file [ex_ids]) ex_ids ex_root)) ! 2) =
     [(''name'', ''_Unsigned''), (''value'', ''true'')]"
proof -
  have k: "obj_kind ex_ids = Dataset" and c: "get_class (obj_type ex_ids) = INTEGER"
    and g: "get_sign (obj_type ex_ids) = SGN_NONE"
    by (simp_all add: ex_ids_def ex_uint64_def)
  have r: "objinfo (ex_file [ex_ids]) ex_ids ex_root =
           (Inr (), snd (objinfo (ex_file [ex_ids]) ex_ids ex_root))"
    using ex_ids_result by (simp add: prod_eq_iff)
  have v: "1 = (if is_dimscale (obj_attrs ex_ids) then Suc (length (nodes ex_root))
                else length (nodes ex_root))"
    using ex_ids_plain by (simp add: ex_root_def)
  show ?thesis
    using unsigned_variable_first_child [OF k c g r _ v] ex_ids_plain ex_ids_result ex_ids_children
    by (simp add: numeral_2_eq_2)
qed

subsection \<open>The elements of the document\<close>

lemma grownI:
  assumes "n0 \<le> length (nodes st)"
    and "\<And>i k. n0 \<le> i \<Longrightarrow> i < length (nodes st) \<Longrightarrow> k \<in> set (children (nodes st ! i)) \<Longrightarrow>
           n0 \<le> k \<and> k < length (nodes st)"
  shows "grown n0 st"
  unfolding grown_def using assms by blast

lemma grownD:
  assumes "grown n0 st" "n0 \<le> i" "i < length (nodes st)" "k \<in> set (children (nodes st ! i))"
  shows "n0 \<le> k \<and> k < length (nodes st)"
  using assms unfolding grown_def by blast

lemma grown_length: "grown n0 st \<Longrightarrow> n0 \<le> length (nodes st)"
  by (simp add: grown_def)

lemma grown_start: "grown (length (nodes st)) st"
  by (simp add: grown_def)

lemma grown_alloc:
  assumes "grown n0 st" "children e = []"
  shows "grown n0 (snd (alloc e st))"
proof (rule grownI)
  show "n0 \<le> length (nodes (snd (alloc e st)))"
    using grown_length [OF assms(1)] by simp
next
  fix i k
  assume i: "n0 \<le> i" "i < length (nodes (snd (alloc e st)))"
    and k: "k \<in> set (children (nodes (snd (alloc e st)) ! i))"
  show "n0 \<le> k \<and> k < length (nodes (snd (alloc e st)))"
  proof (cases "i < length (nodes st)")
    case True
    then have "k \<in> set (children (nodes st ! i))" using k by (simp add: nth_append)
    from grownD [OF assms(1) i(1) True this] show ?thesis by simp
  next
    case False
    then have "i = length (nodes st)" using i(2) by simp
    then show ?thesis using k assms(2) by simp
  qed
qed

lemma grown_append_child:
  assumes "grown n0 st" "n0 \<le> c" "c < length (nodes st)"
  shows "grown n0 (append_child p c st)"
proof (rule grownI)
  show "n0 \<le> length (nodes (append_child p c st))"
    using grown_length [OF assms(1)] by simp
next
  fix i k
  assume i: "n0 \<le> i" "i < length (nodes (append_child p c st))"
    and k: "k \<in> set (children (nodes (append_child p c st) ! i))"
  have i': "i < length (nodes st)" using i(2) by simp
  from k have "k \<in> set (children (nodes st ! i)) \<or> k = c"
    by (auto simp: children_append_child [OF i'] split: if_splits)
  then show "n0 \<le> k \<and> k < length (nodes (append_child p c st))"
  proof
    assume "k \<in> set (children (nodes st ! i))"
    from grownD [OF assms(1) i(1) i' this] show ?thesis by simp
  next
    assume "k = c"
    then show ?thesis using assms(2,3) by simp
  qed
qed

lemma grown_grp_node [simp]: "grown n0 (st\<lparr>grp_node := g\<rparr>) = grown n0 st"
  by (simp add: grown_def)

lemma grown_open_files [simp]: "grown n0 (st\<lparr>open_files := g\<rparr>) = grown n0 st"
  by (simp add: grown_def)

lemma do_attributes_grown:
  "grown n0 st \<Longrightarrow> grown n0 (snd (do_attributes el as st))"
proof (induction as arbitrary: st)
  case Nil
  then show ?case by simp
next
  case (Cons a as)
  show ?case
  proof (cases "aname a \<in> set internal_names")
    case True
    then show ?thesis using Cons by (simp add: do_attributes_Cons)
  next
    case False
    show ?thesis
    proof (cases "attribute_xml a")
      case (Inl e)
      then show ?thesis using False Cons.prems by (simp add: do_attributes_Cons)
    next
      case (Inr ax)
      have "grown n0 (snd (alloc ax st))"
        using attribute_xml_user [OF Inr False] by (intro grown_alloc Cons.prems) simp
      then have "grown n0 (append_child el (length (nodes st)) (snd (alloc ax st)))"
        using grown_length [OF Cons.prems] by (intro grown_append_child) simp_all
      from Cons.IH [OF this] show ?thesis using False Inr by (simp add: do_attributes_Cons)
    qed
  qed
qed

lemma objinfo_tail_grown:
  assumes "grown n0 st" "n0 \<le> el" "el < length (nodes st)"
  shows "grown n0 (snd (objinfo_tail el obj st))"
proof (cases "grp_node st (obj_parent_name obj)")
  case None
  then show ?thesis using assms(1) by (simp add: objinfo_tail_def)
next
  case (Some p)
  have "grown n0 (append_child p el st)" using assms by (rule grown_append_child)
  from do_attributes_grown [OF this] show ?thesis using Some by (simp add: objinfo_tail_def)
qed

lemma variable_state_grown:
  assumes "grown n0 st"
  shows "grown n0 (variable_state nm ty u shp st)"
proof -
  let ?s1 = "snd (alloc (nc_var [(''name'', nm), (''type'', ty), (''shape'', join '' '' shp)]) st)"
  have g1: "grown n0 ?s1" by (intro grown_alloc assms) (simp add: nc_var_def E_def)
  have g2: "grown n0 (snd (alloc (nc_attr [(''name'', ''_Unsigned''), (''value'', ''true'')]) ?s1))"
    by (intro grown_alloc g1) (simp add: nc_attr_def E_def)
  have g3: "grown n0 (append_child (length (nodes st)) (length (nodes ?s1))
              (snd (alloc (nc_attr [(''name'', ''_Unsigned''), (''value'', ''true'')]) ?s1)))"
    using grown_length [OF assms] by (intro grown_append_child g2) simp_all
  show ?thesis using g1 g3 by (simp add: variable_state_def Let_def)
qed

lemma objinfo_variable_grown:
  assumes "grown n0 st"
  shows "grown n0 (snd (objinfo_variable f obj st))"
proof (cases "ncml_dtype (obj_type obj)")
  case (Inl e)
  then show ?thesis using assms by (simp add: objinfo_variable_eq)
next
  case (Inr tu)
  obtain ty u where tu: "tu = (ty, u)" by (cases tu)
  show ?thesis
  proof (cases "dataset_shape f obj")
    case (Inl e)
    then show ?thesis using assms Inr tu by (simp add: objinfo_variable_eq)
  next
    case shp: (Inr shp)
    let ?vs = "variable_state (basename (obj_name obj)) ty u shp st"
    have "grown n0 (snd (objinfo_tail (length (nodes st)) obj ?vs))"
      using grown_length [OF assms]
      by (intro objinfo_tail_grown variable_state_grown assms) (simp_all add: variable_state_nodes)
    then show ?thesis using Inr tu shp by (simp add: objinfo_variable_eq)
  qed
qed


lemma dim_state_grown:
  assumes "grown n0 st"
  shows "grown n0 (append_child p (length (nodes st)) (snd (alloc (nc_dim d) st)))"
proof -
  have "grown n0 (snd (alloc (nc_dim d) st))"
    by (intro grown_alloc assms) (simp add: nc_dim_def E_def)
  then show ?thesis
    using grown_length [OF assms] by (intro grown_append_child) simp_all
qed

lemma objinfo_grown:
  assumes "grown n0 st"
  shows "grown n0 (snd (objinfo f obj st))"
proof (cases "obj_kind obj")
  case Group
  show ?thesis
  proof (cases "grp_node st (obj_name obj)")
    case (Some q)
    then show ?thesis using Group assms by (simp add: objinfo_Group)
  next
    case None
    let ?s = "(snd (alloc (nc_group [(''name'', basename (obj_name obj))]) st))
                \<lparr>grp_node := (grp_node st)(obj_name obj \<mapsto> length (nodes st))\<rparr>"
    have "grown n0 (snd (alloc (nc_group [(''name'', basename (obj_name obj))]) st))"
      by (intro grown_alloc assms) (simp add: nc_group_def E_def)
    then have "grown n0 ?s" by simp
    then have "grown n0 (snd (objinfo_tail (length (nodes st)) obj ?s))"
      using grown_length [OF assms] by (intro objinfo_tail_grown) simp_all
    then show ?thesis using Group None by (simp add: objinfo_Group)
  qed
next
  case Dataset
  show ?thesis
  proof (cases "is_dimscale (obj_attrs obj)")
    case False
    then show ?thesis
      using Dataset objinfo_variable_grown [OF assms] by (simp add: objinfo_Dataset_plain)
  next
    case True
    show ?thesis
    proof (cases "obj_shape obj")
      case Nil
      then show ?thesis using Dataset True assms by (simp add: objinfo_Dataset_scalar)
    next
      case (Cons d ds)
      let ?dim = "[(''name'', basename (obj_name obj)), (''length'', str_nat d)]"
      show ?thesis
      proof (cases "grp_node st (obj_parent_name obj)")
        case None
        have "grown n0 (snd (alloc (nc_dim ?dim) st))"
          by (intro grown_alloc assms) (simp add: nc_dim_def E_def)
        then show ?thesis using None by (simp add: objinfo_Dataset_dim [OF Dataset True Cons])
      next
        case (Some p)
        let ?s = "append_child p (length (nodes st)) (snd (alloc (nc_dim ?dim) st))"
        have g: "grown n0 ?s" using assms by (rule dim_state_grown)
        show ?thesis
        proof (cases "startswith (attrs_get_default (obj_attrs obj) ''NAME'' (PyBytes []))
                        dimension_only_marker")
          case (Inl e)
          then show ?thesis using Some g by (simp add: objinfo_Dataset_dim [OF Dataset True Cons])
        next
          case (Inr b)
          then show ?thesis
            using Some g objinfo_variable_grown [OF g]
            by (simp add: objinfo_Dataset_dim [OF Dataset True Cons])
        qed
      qed
    qed
  qed
next
  case Other
  then show ?thesis using assms by (simp add: objinfo_Other)
qed

lemma visititems_grown: "grown n0 st \<Longrightarrow> grown n0 (snd (visititems f objs st))"
proof (induction objs arbitrary: st)
  case Nil
  then show ?case by simp
next
  case (Cons obj objs)
  obtain r s where o: "objinfo f obj st = (r, s)" by (cases "objinfo f obj st")
  have g: "grown n0 s" using objinfo_grown [OF Cons.prems, of f obj] o by simp
  show ?case using o g Cons.IH [OF g] by (cases r) simp_all
qed

lemma root_state_nodes:
  "nodes (root_state h fn st) =
     nodes st @ [\<lparr>tag = QName ns_nc ''netcdf'',
                   attrib = [(QName ns_xsi ''schemaLocation'',
                              ''http://www.unidata.ucar.edu/schemas/netcdf/ncml-2.2.xsd''),
                             (''location'', file_url h fn)],
                   children = []\<rparr>]"
  by (simp add: root_state_def alloc_def)

lemma root_state_grown: "grown (length (nodes st)) (root_state h fn st)"
  by (rule grownI) (auto simp: root_state_nodes nth_append)

lemma h5toncml_Some_snd:
  assumes "files h fn = Some f" "h5toncml h fn st = (Inr root, st')"
  shows "root = length (nodes st) \<and>
         (\<exists>s3 s4. do_attributes (length (nodes st)) (file_attrs f) (root_state h fn st) = (Inr (), s3) \<and>
            visititems f (file_items f) s3 = (Inr (), s4) \<and>
            st' = s4\<lparr>open_files := open_files s4 - 1\<rparr>)"
proof -
  obtain r3 s3 where d: "do_attributes (length (nodes st)) (file_attrs f) (root_state h fn st) = (r3, s3)"
    by (cases "do_attributes (length (nodes st)) (file_attrs f) (root_state h fn st)")
  obtain r4 s4 where v: "visititems f (file_items f) s3 = (r4, s4)"
    by (cases "visititems f (file_items f) s3")
  show ?thesis
    using assms(2) d v by (cases r3; cases r4) (auto simp: h5toncml_Some [OF assms(1)])
qed

lemma extends_refl: "extends P st st"
  by (simp add: extends_def)

lemma extends_trans:
  assumes "extends P a b" "extends P b c"
  shows "extends P a c"
proof -
  from assms obtain n1 n2 where "labels b = labels a @ n1" "list_all P n1"
    "labels c = labels b @ n2" "list_all P n2"
    unfolding extends_def by blast
  then have "labels c = labels a @ (n1 @ n2) \<and> list_all P (n1 @ n2)" by simp
  then show ?thesis unfolding extends_def by blast
qed

lemma extends_mono:
  assumes "extends P a b" "\<And>l. P l \<Longrightarrow> Q l"
  shows "extends Q a b"
proof -
  from assms(1) obtain new where n: "labels b = labels a @ new" "list_all P new"
    unfolding extends_def by blast
  have "list_all Q new" using n(2) assms(2) by (simp add: list_all_iff)
  then show ?thesis using n(1) unfolding extends_def by blast
qed

lemma extends_alloc: "P (tag e, attrib e) \<Longrightarrow> extends P st (snd (alloc e st))"
  by (simp add: extends_def labels_alloc)

lemma extends_append_child: "extends P st (append_child p c st)"
  by (simp add: extends_def labels_append_child)

lemma extends_length: "extends P st st' \<Longrightarrow> length (nodes st) \<le> length (nodes st')"
proof -
  assume "extends P st st'"
  then obtain new where "labels st' = labels st @ new" unfolding extends_def by blast
  from arg_cong [OF this, of length] show ?thesis by (simp add: length_labels)
qed

lemma extends_nth:
  assumes "extends P st st'" "length (nodes st) \<le> i" "i < length (nodes st')"
  shows "P (tag (nodes st' ! i), attrib (nodes st' ! i))"
proof -
  from assms(1) obtain new where n: "labels st' = labels st @ new" "list_all P new"
    unfolding extends_def by blast
  have l: "length (nodes st') = length (nodes st) + length new"
    using arg_cong [OF n(1), of length] by (simp add: length_labels)
  have "labels st' ! i = new ! (i - length (nodes st))"
    using assms(2) by (simp add: n(1) nth_append length_labels)
  moreover have "P (new ! (i - length (nodes st)))"
    using n(2) assms(2,3) l by (simp add: list_all_length)
  ultimately show ?thesis using labels_nth [OF assms(3)] by simp
qed

lemma do_attributes_extends: "extends user_attr st (snd (do_attributes el as st))"
  using do_attributes_labels [of el as st] by (simp add: extends_def)

lemma objinfo_tail_extends: "extends user_attr st (snd (objinfo_tail el obj st))"
  using objinfo_tail_labels [of el obj st] by (simp add: extends_def)

lemma variable_state_extends: "extends var_label st (variable_state nm ty u shp st)"
  by (simp add: extends_def variable_state_labels var_label_def user_attr_def internal_names_def)

lemma user_attr_var_label: "user_attr l \<Longrightarrow> var_label l"
  by (simp add: var_label_def)

lemma var_label_walker_label: "var_label l \<Longrightarrow> walker_label l"
  by (simp add: walker_label_def)

lemma objinfo_variable_extends: "extends var_label st (snd (objinfo_variable f obj st))"
proof (cases "ncml_dtype (obj_type obj)")
  case (Inl e)
  then show ?thesis by (simp add: objinfo_variable_eq extends_refl)
next
  case (Inr tu)
  obtain ty u where tu: "tu = (ty, u)" by (cases tu)
  show ?thesis
  proof (cases "dataset_shape f obj")
    case (Inl e)
    then show ?thesis using Inr tu by (simp add: objinfo_variable_eq extends_refl)
  next
    case shp: (Inr shp)
    let ?vs = "variable_state (basename (obj_name obj)) ty u shp st"
    have "extends var_label ?vs (snd (objinfo_tail (length (nodes st)) obj ?vs))"
      by (rule extends_mono [OF objinfo_tail_extends user_attr_var_label])
    from extends_trans [OF variable_state_extends this] show ?thesis
      using Inr tu shp by (simp add: objinfo_variable_eq)
  qed
qed


lemma extends_grp_node [simp]: "extends P st (s\<lparr>grp_node := g\<rparr>) = extends P st s"
  by (simp add: extends_def labels_def)

lemma extends_open_files [simp]: "extends P st (s\<lparr>open_files := g\<rparr>) = extends P st s"
  by (simp add: extends_def labels_def)

lemma objinfo_variable_extends_walker:
  "extends walker_label st s \<Longrightarrow> extends walker_label st (snd (objinfo_variable f obj s))"
  by (rule extends_trans [OF _ extends_mono [OF objinfo_variable_extends var_label_walker_label]])

lemma dim_state_extends:
  "extends walker_label st (append_child p c (snd (alloc (nc_dim d) st)))"
proof -
  have "extends walker_label st (snd (alloc (nc_dim d) st))"
    by (rule extends_alloc) (simp add: walker_label_def nc_dim_def E_def)
  from extends_trans [OF this extends_append_child] show ?thesis .
qed

lemma objinfo_extends: "extends walker_label st (snd (objinfo f obj st))"
proof (cases "obj_kind obj")
  case Group
  show ?thesis
  proof (cases "grp_node st (obj_name obj)")
    case (Some q)
    then show ?thesis using Group by (simp add: objinfo_Group extends_refl)
  next
    case None
    let ?s = "(snd (alloc (nc_group [(''name'', basename (obj_name obj))]) st))
                \<lparr>grp_node := (grp_node st)(obj_name obj \<mapsto> length (nodes st))\<rparr>"
    have a: "extends walker_label st ?s"
      by (simp add: extends_alloc walker_label_def nc_group_def E_def)
    have "extends walker_label ?s (snd (objinfo_tail (length (nodes st)) obj ?s))"
      by (rule extends_mono [OF objinfo_tail_extends])
         (simp add: walker_label_def var_label_def)
    from extends_trans [OF a this] show ?thesis using Group None by (simp add: objinfo_Group)
  qed
next
  case Dataset
  show ?thesis
  proof (cases "is_dimscale (obj_attrs obj)")
    case False
    then show ?thesis
      using Dataset objinfo_variable_extends_walker [OF extends_refl, of st f obj]
      by (simp add: objinfo_Dataset_plain)
  next
    case True
    show ?thesis
    proof (cases "obj_shape obj")
      case Nil
      then show ?thesis using Dataset True by (simp add: objinfo_Dataset_scalar extends_refl)
    next
      case (Cons d ds)
      let ?dim = "[(''name'', basename (obj_name obj)), (''length'', str_nat d)]"
      show ?thesis
      proof (cases "grp_node st (obj_parent_name obj)")
        case None
        have "extends walker_label st (snd (alloc (nc_dim ?dim) st))"
          by (rule extends_alloc) (simp add: walker_label_def nc_dim_def E_def)
        then show ?thesis using None by (simp add: objinfo_Dataset_dim [OF Dataset True Cons])
      next
        case (Some p)
        let ?s = "append_child p (length (nodes st)) (snd (alloc (nc_dim ?dim) st))"
        have g: "extends walker_label st ?s" by (rule dim_state_extends)
        show ?thesis
        proof (cases "startswith (attrs_get_default (obj_attrs obj) ''NAME'' (PyBytes []))
                        dimension_only_marker")
          case (Inl e)
          then show ?thesis using Some g by (simp add: objinfo_Dataset_dim [OF Dataset True Cons])
        next
          case (Inr b)
          then show ?thesis
            using Some g objinfo_variable_extends_walker [OF g, of f obj]
            by (simp add: objinfo_Dataset_dim [OF Dataset True Cons])
        qed
      qed
    qed
  qed
next
  case Other
  then show ?thesis by (simp add: objinfo_Other extends_refl)
qed

lemma visititems_extends: "extends walker_label st (snd (visititems f objs st))"
proof (induction objs arbitrary: st)
  case Nil
  show ?case by (simp add: extends_refl)
next
  case (Cons obj objs)
  obtain r s where o: "objinfo f obj st = (r, s)" by (cases "objinfo f obj st")
  have g: "extends walker_label st s" using objinfo_extends [of st f obj] o by simp
  show ?case using o g extends_trans [OF g Cons [of s]] by (cases r) simp_all
qed

lemma root_state_extends: "extends walker_label st (root_state h fn st)"
  by (simp add: extends_def labels_def root_state_nodes walker_label_def)

lemma h5toncml_new_elements:
  assumes "h5toncml h fn st = (Inr root, st')"
  shows "root = length (nodes st) \<and> root < length (nodes st') \<and>
         grown (length (nodes st)) st' \<and> extends walker_label st st'"
proof (cases "files h fn")
  case None
  then show ?thesis using assms by (simp add: h5toncml_None)
next
  case (Some f)
  from h5toncml_Some_snd [OF Some assms] obtain s3 s4 where
    r: "root = length (nodes st)"
    and d: "do_attributes (length (nodes st)) (file_attrs f) (root_state h fn st) = (Inr (), s3)"
    and v: "visititems f (file_items f) s3 = (Inr (), s4)"
    and st': "st' = s4\<lparr>open_files := open_files s4 - 1\<rparr>"
    by blast
  have g3: "grown (length (nodes st)) s3"
    using do_attributes_grown [OF root_state_grown, of st "length (nodes st)" "file_attrs f" h fn] d
    by simp
  have g4: "grown (length (nodes st)) s4"
    using visititems_grown [OF g3, of f "file_items f"] v by simp
  have e3: "extends walker_label (root_state h fn st) s3"
    using extends_mono [OF do_attributes_extends, of walker_label "root_state h fn st"
            "length (nodes st)" "file_attrs f"] d
    by (simp add: walker_label_def var_label_def)
  have e4: "extends walker_label s3 s4"
    using visititems_extends [of s3 f "file_items f"] v by simp
  have e: "extends walker_label st s4"
    by (rule extends_trans [OF root_state_extends extends_trans [OF e3 e4]])
  have "length (nodes (root_state h fn st)) \<le> length (nodes s4)"
    by (rule extends_length [OF extends_trans [OF e3 e4]])
  then have "length (nodes st) < length (nodes s4)" by (simp add: root_state_nodes)
  then show ?thesis using r g4 e st' by simp
qed

lemma reach_new:
  assumes "grown n0 st" "reach (nodes st) r i" "n0 \<le> r" "r < length (nodes st)"
  shows "n0 \<le> i \<and> i < length (nodes st)"
  using assms(2)
proof (induction rule: reach.induct)
  case reach_root
  show ?case using assms(3,4) by simp
next
  case (reach_child i k)
  then show ?case using grownD [OF assms(1)] by blast
qed


lemma QName_local [simp]: "(QName ns a = QName ns b) = (a = b)"
  by (simp add: QName_def)

text \<open>
  Claim C7. In the document a conversion returns, every \<^verbatim>\<open><attribute>\<close> element has a
  name, and the name is none of CLASS, REFERENCE_LIST, DIMENSION_LIST and NAME.
\<close>

theorem internal_attributes_suppressed:
  assumes "h5toncml h fn st = (Inr root, st')"
    and "reach (nodes st') root i"
    and "tag (nodes st' ! i) = QName ns_nc ''attribute''"
  shows "\<exists>n. map_of (attrib (nodes st' ! i)) ''name'' = Some n \<and>
             n \<notin> {''CLASS'', ''REFERENCE_LIST'', ''DIMENSION_LIST'', ''NAME''}"
proof -
  from h5toncml_new_elements [OF assms(1)] have
    r: "root = length (nodes st)" "root < length (nodes st')"
    and g: "grown (length (nodes st)) st'" and e: "extends walker_label st st'"
    by simp_all
  from reach_new [OF g assms(2)] r have i: "length (nodes st) \<le> i" "i < length (nodes st')"
    by simp_all
  from extends_nth [OF e i] have "walker_label (tag (nodes st' ! i), attrib (nodes st' ! i))" .
  then have "user_attr (tag (nodes st' ! i), attrib (nodes st' ! i))"
    using assms(3) by (simp add: walker_label_def var_label_def)
  then show ?thesis by (simp add: user_attr_def internal_names_def)
qed

lemma ex_a_children:
  "children (nodes (snd (h5toncml ex_host ''a.h5'' init_state)) ! 0) = [1, 2, 3]"
  "children (nodes (snd (h5toncml ex_host ''a.h5'' init_state)) ! 3) = [4, 5]"
  "children (nodes (snd (h5toncml ex_host ''a.h5'' init_state)) ! 5) = [6, 7]"
  "length (nodes (snd (h5toncml ex_host ''a.h5'' init_state))) = 8"
  by code_simp+

lemma ex_a_labels:
  "labels (snd (h5toncml ex_host ''a.h5'' init_state)) =
     [(QName ns_nc ''netcdf'',
       [(QName ns_xsi ''schemaLocation'', ''http://www.unidata.ucar.edu/schemas/netcdf/ncml-2.2.xsd''),
        (''location'', ''file:///data/a.h5'')]),
      (QName ns_nc ''attribute'', [(''name'', ''history''), (''type'', ''String''), (''value'', ''made'')]),
      (QName ns_nc ''dimension'', [(''name'', ''lat''), (''length'', ''5'')]),
      (QName ns_nc ''group'', [(''name'', ''g'')]),
      (QName ns_nc ''attribute'', [(''name'', ''title''), (''type'', ''String''), (''value'', ''counts'')]),
      (QName ns_nc ''variable'', [(''name'', ''cnt''), (''type'', ''long''), (''shape'', ''5 3'')]),
      (QName ns_nc ''attribute'', [(''name'', ''_Unsigned''), (''value'', ''true'')]),
      (QName ns_nc ''attribute'', [(''name'', ''units''), (''type'', ''String''), (''value'', ''meters'')])]"
  by code_simp

theorem internal_attributes_suppressed_witness:
  "fst (h5toncml ex_host ''a.h5'' init_state) = Inr 0 \<and>
   tag (nodes (snd (h5toncml ex_host ''a.h5'' init_state)) ! 7) = QName ns_nc ''attribute'' \<and>
   map_of (attrib (nodes (snd (h5toncml ex_host ''a.h5'' init_state)) ! 7)) ''name'' = Some ''units''"
proof -
  let ?st = "snd (h5toncml ex_host ''a.h5'' init_state)"
  have c: "h5toncml ex_host ''a.h5'' init_state = (Inr 0, ?st)"
    using ex_a_result by (simp add: prod_eq_iff)
  have r3: "reach (nodes ?st) 0 3"
    by (rule reach_child [OF reach_root]) (simp_all add: ex_a_children)
  have r5: "reach (nodes ?st) 0 5"
    by (rule reach_child [OF r3]) (simp_all add: ex_a_children)
  have r7: "reach (nodes ?st) 0 7"
    by (rule reach_child [OF r5]) (simp_all add: ex_a_children)
  have l: "7 < length (nodes ?st)" by (simp add: ex_a_children)
  have t: "tag (nodes ?st ! 7) = QName ns_nc ''attribute''"
    and a: "attrib (nodes ?st ! 7) = [(''name'', ''units''), (''type'', ''String''), (''value'', ''meters'')]"
    using labels_nth [OF l] by (simp_all add: ex_a_labels)
  show ?thesis
    using internal_attributes_suppressed [OF c r7 t] ex_a_result t a by simp
qed

subsection \<open>A class attribute that is a text string\<close>









subsection \<open>The table of group nodes across conversions\<close>

lemma objinfo_tail_fst:
  assumes "(grp_node s (obj_parent_name obj) = None) = (grp_node t (obj_parent_name obj) = None)"
  shows "fst (objinfo_tail el obj s) = fst (objinfo_tail el' obj t)"
proof (cases "grp_node s (obj_parent_name obj)")
  case None
  then show ?thesis using assms by (simp add: objinfo_tail_def)
next
  case (Some p)
  then obtain q where "grp_node t (obj_parent_name obj) = Some q" using assms by auto
  then show ?thesis
    using Some do_attributes_fst [of el "obj_attrs obj" "append_child p el s" el' "append_child q el' t"]
    by (simp add: objinfo_tail_def)
qed

lemma objinfo_variable_fst:
  assumes "(grp_node s (obj_parent_name obj) = None) = (grp_node t (obj_parent_name obj) = None)"
  shows "fst (objinfo_variable f obj s) = fst (objinfo_variable f obj t)"
proof (cases "ncml_dtype (obj_type obj)")
  case (Inl e)
  then show ?thesis by (simp add: objinfo_variable_eq)
next
  case (Inr tu)
  obtain ty u where tu: "tu = (ty, u)" by (cases tu)
  show ?thesis
  proof (cases "dataset_shape f obj")
    case (Inl e)
    then show ?thesis using Inr tu by (simp add: objinfo_variable_eq)
  next
    case shp: (Inr shp)
    show ?thesis
      using Inr tu shp assms
      by (simp add: objinfo_variable_eq objinfo_tail_fst)
  qed
qed

lemma objinfo_Dataset_fst:
  assumes "obj_kind obj = Dataset"
    and "(grp_node s (obj_parent_name obj) = None) = (grp_node t (obj_parent_name obj) = None)"
  shows "fst (objinfo f obj s) = fst (objinfo f obj t)"
proof (cases "is_dimscale (obj_attrs obj)")
  case False
  then show ?thesis
    using assms objinfo_variable_fst [OF assms(2), of f] by (simp add: objinfo_Dataset_plain)
next
  case True
  show ?thesis
  proof (cases "obj_shape obj")
    case Nil
    then show ?thesis using assms(1) True by (simp add: objinfo_Dataset_scalar)
  next
    case (Cons d ds)
    show ?thesis
    proof (cases "grp_node s (obj_parent_name obj)")
      case None
      then show ?thesis using assms(2) by (simp add: objinfo_Dataset_dim [OF assms(1) True Cons])
    next
      case (Some p)
      then obtain q where q: "grp_node t (obj_parent_name obj) = Some q" using assms(2) by auto
      let ?dim = "nc_dim [(''name'', basename (obj_name obj)), (''length'', str_nat d)]"
      have "fst (objinfo_variable f obj (append_child p (length (nodes s)) (snd (alloc ?dim s)))) =
            fst (objinfo_variable f obj (append_child q (length (nodes t)) (snd (alloc ?dim t))))"
        by (rule objinfo_variable_fst) (simp add: Some q)
      then show ?thesis
        using Some q
        by (simp add: objinfo_Dataset_dim [OF assms(1) True Cons] split: sum.splits)
    qed
  qed
qed

lemma objinfo_tail_None:
  "grp_node s (obj_parent_name obj) = None \<Longrightarrow> fst (objinfo_tail el obj s) \<noteq> Inr ()"
  by (simp add: objinfo_tail_def)

lemma objinfo_variable_None:
  assumes "grp_node s (obj_parent_name obj) = None"
  shows "fst (objinfo_variable f obj s) \<noteq> Inr ()"
proof (cases "ncml_dtype (obj_type obj)")
  case (Inl e)
  then show ?thesis by (simp add: objinfo_variable_eq)
next
  case (Inr tu)
  obtain ty u where tu: "tu = (ty, u)" by (cases tu)
  show ?thesis
  proof (cases "dataset_shape f obj")
    case (Inl e)
    then show ?thesis using Inr tu by (simp add: objinfo_variable_eq)
  next
    case shp: (Inr shp)
    show ?thesis
      using Inr tu shp assms by (simp add: objinfo_variable_eq objinfo_tail_None)
  qed
qed

lemma objinfo_Dataset_None:
  assumes "obj_kind obj = Dataset" "grp_node s (obj_parent_name obj) = None"
  shows "fst (objinfo f obj s) \<noteq> Inr ()"
proof (cases "is_dimscale (obj_attrs obj)")
  case False
  then show ?thesis
    using assms objinfo_variable_None [OF assms(2), of f] by (simp add: objinfo_Dataset_plain)
next
  case True
  show ?thesis
  proof (cases "obj_shape obj")
    case Nil
    then show ?thesis using assms(1) True by (simp add: objinfo_Dataset_scalar)
  next
    case (Cons d ds)
    show ?thesis using assms(2) by (simp add: objinfo_Dataset_dim [OF assms(1) True Cons])
  qed
qed

lemma objinfo_Dataset_transfer:
  assumes "obj_kind obj = Dataset" "fst (objinfo f obj s) = Inr ()"
    and "dom (grp_node s) \<subseteq> dom (grp_node t)"
  shows "fst (objinfo f obj t) = Inr ()"
proof -
  have a: "grp_node s (obj_parent_name obj) \<noteq> None"
    using objinfo_Dataset_None [OF assms(1), of s f] assms(2) by auto
  then have b: "grp_node t (obj_parent_name obj) \<noteq> None"
    using assms(3) by (auto simp: dom_def)
  have "(grp_node s (obj_parent_name obj) = None) = (grp_node t (obj_parent_name obj) = None)"
    using a b by blast
  from objinfo_Dataset_fst [OF assms(1) this, of f] show ?thesis using assms(2) by simp
qed

lemma objinfo_Group_registers:
  assumes "obj_kind g = Group" "fst (objinfo f g s) = Inr ()"
  shows "obj_name g \<in> dom (grp_node (snd (objinfo f g s)))"
proof (cases "grp_node s (obj_name g)")
  case None
  then show ?thesis using assms(1) by (simp add: objinfo_Group objinfo_tail_frame)
next
  case (Some q)
  then show ?thesis using assms by (simp add: objinfo_Group)
qed

lemma visititems_datasets_transfer:
  assumes "\<forall>obj\<in>set pre. obj_kind obj \<noteq> Group" "fst (visititems f pre s) = Inr ()"
    and "dom (grp_node s) \<subseteq> dom (grp_node t)"
  shows "fst (visititems f pre t) = Inr () \<and> grp_node (snd (visititems f pre t)) = grp_node t"
  using assms
proof (induction pre arbitrary: s t)
  case Nil
  show ?case by simp
next
  case (Cons obj pre)
  obtain r s1 where o: "objinfo f obj s = (r, s1)" by (cases "objinfo f obj s")
  have r: "r = Inr ()" using Cons.prems(2) o by (cases r) simp_all
  have k: "obj_kind obj = Dataset"
    using Cons.prems(1) o r by (cases "obj_kind obj") (simp_all add: objinfo_Other)
  obtain r' t1 where o': "objinfo f obj t = (r', t1)" by (cases "objinfo f obj t")
  have r': "r' = Inr ()"
    using objinfo_Dataset_transfer [OF k _ Cons.prems(3), of f] o o' r by simp
  have g: "grp_node s1 = grp_node s" "grp_node t1 = grp_node t"
    using objinfo_grp_node_Dataset [OF k, of f s] objinfo_grp_node_Dataset [OF k, of f t] o o'
    by simp_all
  have "fst (visititems f pre t1) = Inr () \<and> grp_node (snd (visititems f pre t1)) = grp_node t1"
  proof (rule Cons.IH)
    show "\<forall>obj\<in>set pre. obj_kind obj \<noteq> Group" using Cons.prems(1) by simp
    show "fst (visititems f pre s1) = Inr ()" using Cons.prems(2) o r by simp
    show "dom (grp_node s1) \<subseteq> dom (grp_node t1)" using g Cons.prems(3) by simp
  qed
  then show ?case using o' r' g by simp
qed


lemma visititems_success_split:
  assumes "fst (visititems f (pre @ g # post) s) = Inr ()"
  shows "fst (visititems f pre s) = Inr () \<and>
         fst (objinfo f g (snd (visititems f pre s))) = Inr () \<and>
         dom (grp_node (snd (objinfo f g (snd (visititems f pre s))))) \<subseteq>
           dom (grp_node (snd (visititems f (pre @ g # post) s)))"
proof -
  obtain r1 s1 where p: "visititems f pre s = (r1, s1)" by (cases "visititems f pre s")
  obtain r2 s2 where o: "objinfo f g s1 = (r2, s2)" by (cases "objinfo f g s1")
  have r1: "r1 = Inr ()" using assms p by (cases r1) (simp_all add: visititems_append)
  have r2: "r2 = Inr ()" using assms p o r1 by (cases r2) (simp_all add: visititems_append)
  have "visititems f (pre @ g # post) s = visititems f post s2"
    using p o r1 r2 by (simp add: visititems_append)
  then show ?thesis using p o r1 r2 visititems_dom [of s2 f post] by simp
qed

lemma h5toncml_second_call:
  assumes "h5toncml h fn st = (Inr root, st')" "files h fn = Some f"
    and "file_items f = pre @ g # post" "obj_kind g = Group"
    and "\<forall>obj\<in>set pre. obj_kind obj \<noteq> Group"
  shows "obj_name g \<in> dom (grp_node st') \<and>
         fst (h5toncml h fn st') = Inl (RuntimeError (obj_name g @ '': XML node already exists''))"
proof -
  from h5toncml_Some_snd [OF assms(2,1)] obtain s3 s4 where
    d: "do_attributes (length (nodes st)) (file_attrs f) (root_state h fn st) = (Inr (), s3)"
    and v: "visititems f (file_items f) s3 = (Inr (), s4)"
    and st': "st' = s4\<lparr>open_files := open_files s4 - 1\<rparr>"
    by blast
  have vs: "fst (visititems f (pre @ g # post) s3) = Inr ()" using v assms(3) by simp
  note sp = visititems_success_split [OF vs]
  have reg: "obj_name g \<in> dom (grp_node s4)"
    using objinfo_Group_registers [OF assms(4), of f "snd (visititems f pre s3)"] sp v assms(3)
    by auto
  have dom34: "dom (grp_node s3) \<subseteq> dom (grp_node s4)"
    using visititems_dom [of s3 f "file_items f"] v by simp
  have in_st': "obj_name g \<in> dom (grp_node st')" using reg st' by simp
  \<comment> \<open>the second call\<close>
  obtain r3' t3 where d': "do_attributes (length (nodes st')) (file_attrs f) (root_state h fn st') = (r3', t3)"
    by (cases "do_attributes (length (nodes st')) (file_attrs f) (root_state h fn st')")
  have r3': "r3' = Inr ()"
    using do_attributes_fst [of "length (nodes st')" "file_attrs f" "root_state h fn st'"
            "length (nodes st)" "root_state h fn st"] d d'
    by simp
  have g3: "grp_node t3 = (grp_node st')(''/'' \<mapsto> length (nodes st'))"
    using do_attributes_frame [of "length (nodes st')" "file_attrs f" "root_state h fn st'"] d'
    by simp
  have dom3: "dom (grp_node s3) \<subseteq> dom (grp_node t3)"
    using dom34 st' g3 by auto
  from visititems_datasets_transfer [OF assms(5) _ dom3, of f] sp
  have tp: "fst (visititems f pre t3) = Inr ()"
    "grp_node (snd (visititems f pre t3)) = grp_node t3"
    by simp_all
  obtain u where u: "visititems f pre t3 = (Inr (), u)"
    using tp(1) by (cases "visititems f pre t3") simp
  have "grp_node u (obj_name g) \<noteq> None"
    using tp(2) u g3 in_st' by (auto simp: dom_def)
  then have "objinfo f g u = (Inl (RuntimeError (obj_name g @ '': XML node already exists'')), u)"
    using assms(4) by (simp add: objinfo_Group)
  then have "visititems f (file_items f) t3 =
             (Inl (RuntimeError (obj_name g @ '': XML node already exists'')), u)"
    using u by (simp add: assms(3) visititems_append)
  then have "fst (h5toncml h fn st') = Inl (RuntimeError (obj_name g @ '': XML node already exists''))"
    using d' r3' by (simp add: h5toncml_Some [OF assms(2)])
  then show ?thesis using in_st' by simp
qed

lemma h5toncml_dom: "dom (grp_node st) \<subseteq> dom (grp_node (snd (h5toncml h fn st)))"
proof (cases "files h fn")
  case None
  then show ?thesis by (simp add: h5toncml_None)
next
  case (Some f)
  obtain r3 s3 where d: "do_attributes (length (nodes st)) (file_attrs f) (root_state h fn st) = (r3, s3)"
    by (cases "do_attributes (length (nodes st)) (file_attrs f) (root_state h fn st)")
  obtain r4 s4 where v: "visititems f (file_items f) s3 = (r4, s4)"
    by (cases "visititems f (file_items f) s3")
  have g3: "grp_node s3 = (grp_node st)(''/'' \<mapsto> length (nodes st))"
    using do_attributes_frame [of "length (nodes st)" "file_attrs f" "root_state h fn st"] d
    by simp
  have "dom (grp_node s3) \<subseteq> dom (grp_node s4)"
    using visititems_dom [of s3 f "file_items f"] v by simp
  then have "dom (grp_node st) \<subseteq> dom (grp_node s3) \<and> dom (grp_node st) \<subseteq> dom (grp_node s4)"
    using g3 by auto
  then show ?thesis
    using d v by (cases r3; cases r4) (simp_all add: h5toncml_Some [OF Some])
qed

text \<open>
  Claim C4, as the code has it. \<^verbatim>\<open>grp_node\<close> is one dictionary of the module, and no
  conversion removes a key from it: whatever was registered before a call is registered
  after it. After a conversion that returned the document of a file with a group, the
  group's path is still registered, and a second conversion of the same file fails with
  the \<open>RuntimeError\<close> of the first group.
\<close>

theorem grp_node_outlives_conversion:
  assumes "h5toncml h fn st = (r, st')"
  shows "dom (grp_node st) \<subseteq> dom (grp_node st') \<and>
         (\<forall>root f pre g post.
            r = Inr root \<and> files h fn = Some f \<and> file_items f = pre @ g # post \<and>
            obj_kind g = Group \<and> (\<forall>obj\<in>set pre. obj_kind obj \<noteq> Group) \<longrightarrow>
            obj_name g \<in> dom (grp_node st') \<and>
            fst (h5toncml h fn st') =
              Inl (RuntimeError (obj_name g @ '': XML node already exists'')))"
  using h5toncml_dom [of st h fn] h5toncml_second_call [of h fn st _ st'] assms by auto


lemma ex_a_second:
  "fst (h5toncml ex_host ''a.h5'' (snd (h5toncml ex_host ''a.h5'' init_state))) =
     Inl (RuntimeError ''/g: XML node already exists'')"
  by code_simp

lemma ex_a_registered: "grp_node (snd (h5toncml ex_host ''a.h5'' init_state)) ''/g'' = Some 3"
  by code_simp

theorem grp_node_outlives_conversion_witness:
  "fst (h5toncml ex_host ''a.h5'' init_state) = Inr 0 \<and>
   ''/g'' \<in> dom (grp_node (snd (h5toncml ex_host ''a.h5'' init_state))) \<and>
   fst (h5toncml ex_host ''a.h5'' (snd (h5toncml ex_host ''a.h5'' init_state))) =
     Inl (RuntimeError ''/g: XML node already exists'')"
proof -
  let ?st = "snd (h5toncml ex_host ''a.h5'' init_state)"
  have c: "h5toncml ex_host ''a.h5'' init_state = (Inr 0, ?st)"
    using ex_a_result by (simp add: prod_eq_iff)
  have f: "files ex_host ''a.h5'' = Some (ex_file [ex_lat, ex_grp, ex_cnt])"
    by (simp add: ex_host_def)
  have i: "file_items (ex_file [ex_lat, ex_grp, ex_cnt]) = [ex_lat] @ ex_grp # [ex_cnt]"
    by (simp add: ex_file_def)
  have k: "obj_kind ex_grp = Group" "\<forall>obj\<in>set [ex_lat]. obj_kind obj \<noteq> Group"
    "obj_name ex_grp = ''/g''"
    by (simp_all add: ex_grp_def ex_lat_def)
  from grp_node_outlives_conversion
         [OF c, THEN conjunct2, rule_format,
          of 0 "ex_file [ex_lat, ex_grp, ex_cnt]" "[ex_lat]" ex_grp "[ex_cnt]"]
  show ?thesis using f i k ex_a_result by simp
qed

text \<open>
  The claim as stated fails: the first conversion of a file with the group \<open>/g\<close> returns
  a document and leaves \<open>/g\<close> registered; the second conversion of the same file fails.
\<close>

theorem second_conversion_differs:
  "fst (h5toncml ex_host ''a.h5'' init_state) = Inr 0 \<and>
   grp_node (snd (h5toncml ex_host ''a.h5'' init_state)) ''/g'' = Some 3 \<and>
   fst (h5toncml ex_host ''a.h5'' (snd (h5toncml ex_host ''a.h5'' init_state))) =
     Inl (RuntimeError ''/g: XML node already exists'')"
  using ex_a_result ex_a_registered ex_a_second by simp

end
